theory Spec2Isabelle
  imports Complex_Main "HOL-Library.Log_Nat" "HOL-Library.Multiset"
begin

section \<open>Numbers\<close>

text \<open>
  A JavaScript number is an IEEE-754 binary64 value.  The finite ones are rationals, and
  every arithmetic operator rounds its exact result to the nearest binary64 value, ties to
  the even significand.  \<open>rnd64\<close> is that rounding, on rationals: \<open>exponent_of\<close> finds
  the binade of a positive rational, the unit in the last place is \<open>2 powi (e - 52)\<close>, and
  below \<open>2 powi (- 1022)\<close> the spacing of the subnormal numbers is kept.

  \<open>NaN\<close>, the two infinities and the sign of zero are not values of this type: an
  operation whose exact result lies beyond the binary64 range is outside the model.
\<close>

type_synonym number = rat

definition exponent_of :: "rat \<Rightarrow> int" where
  "exponent_of x =
     (let (p, q) = quotient_of x; d = bitlen p - bitlen q
      in if 2 powi d \<le> x then d else d - 1)"

definition round_half_even :: "rat \<Rightarrow> int" where
  "round_half_even y =
     (let f = \<lfloor>y\<rfloor>; d = y - of_int f
      in if d < 1 / 2 then f else if 1 / 2 < d then f + 1 else if even f then f else f + 1)"

definition rnd64 :: "rat \<Rightarrow> number" where
  "rnd64 x =
     (if x = 0 then 0
      else let u = 2 powi (max (exponent_of \<bar>x\<bar>) (- 1022) - 52)
           in of_int (round_half_even (x / u)) * u)"

text \<open>The operators \<open>+\<close>, \<open>-\<close>, \<open>*\<close> and \<open>/\<close> of the source.\<close>

definition js_add :: "number \<Rightarrow> number \<Rightarrow> number" where
  "js_add a b = rnd64 (a + b)"

definition js_sub :: "number \<Rightarrow> number \<Rightarrow> number" where
  "js_sub a b = rnd64 (a - b)"

definition js_mul :: "number \<Rightarrow> number \<Rightarrow> number" where
  "js_mul a b = rnd64 (a * b)"

definition js_div :: "number \<Rightarrow> number \<Rightarrow> number" where
  "js_div a b = rnd64 (a / b)"

text \<open>
  \<open>Math.round\<close> is exact and rounds a tie towards \<open>+\<infinity>\<close>; \<open>Math.ceil\<close>, \<open>Math.min\<close> and
  \<open>Math.max\<close> are exact too.  \<open>Math.min(...xs)\<close> and \<open>Math.max(...xs)\<close> of no argument
  are \<open>Infinity\<close> and \<open>-Infinity\<close>, which are not numbers of this model: the equation for
  \<open>[]\<close> is a placeholder, reached only by a case of zero measured iterations, which
  \<open>parseInteger\<close> rules out.
\<close>

definition Math_round :: "number \<Rightarrow> number" where
  "Math_round x = of_int \<lfloor>x + 1 / 2\<rfloor>"

definition Math_ceil :: "number \<Rightarrow> int" where
  "Math_ceil x = \<lceil>x\<rceil>"

fun Math_min :: "number list \<Rightarrow> number" where
  "Math_min [] = 0"
| "Math_min (x # xs) = fold min xs x"

fun Math_max :: "number list \<Rightarrow> number" where
  "Math_max [] = 0"
| "Math_max (x # xs) = fold max xs x"

section \<open>utils.ts\<close>

text \<open>
  \<^verbatim>\<open>values.reduce((sum, value) => sum + value, 0) / values.length\<close>: a left fold of the
  rounding addition, then one rounding division.
\<close>

definition mean :: "number list \<Rightarrow> number" where
  "mean values =
     (if length values = 0 then 0
      else js_div (foldl (\<lambda>sum v. js_add sum v) 0 values) (of_nat (length values)))"

text \<open>
  \<open>percentile\<close> copies its argument (\<^verbatim>\<open>[...values]\<close>) and sorts the copy in place.  To say
  which array the sort writes to, arrays live in a store: an address is an index into the
  list of all arrays, and a fresh array gets the next index.  The comparator \<^verbatim>\<open>a - b\<close> is
  negative exactly when \<open>a < b\<close>, so the sort is the ascending one.  The index arithmetic is
  on integers far below \<open>2 ^ 53\<close>, where binary64 arithmetic is exact; the product
  \<^verbatim>\<open>sorted.length * fraction\<close> is a rounding multiplication.
\<close>

type_synonym store = "number list list"

definition percentile_in :: "store \<Rightarrow> nat \<Rightarrow> number \<Rightarrow> number \<times> store" where
  "percentile_in h vals fraction =
     (if length (h ! vals) = 0 then (0, h)
      else let sorted = length h;
               h1 = h @ [h ! vals];
               h2 = h1[sorted := sort (h1 ! sorted)];
               len = int (length (h2 ! sorted));
               index = min (len - 1) (max 0 (Math_ceil (js_mul (of_int len) fraction) - 1))
           in (if 0 \<le> index \<and> index < len then h2 ! sorted ! nat index else 0, h2))"

definition percentile :: "number list \<Rightarrow> number \<Rightarrow> number" where
  "percentile values fraction = fst (percentile_in [values] 0 fraction)"

definition formatMb :: "number \<Rightarrow> number" where
  "formatMb bytes = js_div bytes (1024 * 1024)"

section \<open>types.ts\<close>

text \<open>
  A task name is a string at run time; \<open>ALL_TASKS\<close> (index.ts) is the closed enumeration.
\<close>

type_synonym BenchTaskName = string

type_synonym buffer = "nat list"

datatype image_format = Png | Webp | Svg

datatype TaskOutput = Image number image_format buffer | Metric number

datatype output_kind = KImage | KMetric

datatype output_unit = Bytes | Value

fun kind :: "TaskOutput \<Rightarrow> output_kind" where
  "kind (Image b f buf) = KImage"
| "kind (Metric v) = KMetric"

text \<open>
  What a call can throw: \<open>UnsupportedTaskError\<close> (utils.ts) or any other \<open>Error\<close>; both
  carry their message.
\<close>

datatype error = UnsupportedTaskError string | Error string

text \<open>
  A renderer acts on the world outside the program (native libraries, its font
  registry), of some type \<open>'w\<close>: a call takes the world and returns the new one with its
  result or the error it threw.  The benchmark context is read-only fixture data and is
  left out.
\<close>

record 'w BenchRenderer =
  name :: string
  prepare :: "('w \<Rightarrow> error option \<times> 'w) option"
  run :: "BenchTaskName \<Rightarrow> 'w \<Rightarrow> (error + TaskOutput) \<times> 'w"

record BenchCaseStats =
  st_renderer :: string
  st_task :: BenchTaskName
  st_iterations :: nat
  st_warmup :: nat
  avgMs :: number
  p95Ms :: number
  minMs :: number
  maxMs :: number
  rssPeakDeltaMb :: number
  heapPeakDeltaMb :: number
  heapEndDeltaMb :: number
  outputKind :: output_kind
  outputAverage :: number
  outputUnit :: output_unit

record BenchCaseSkip =
  sk_renderer :: string
  sk_task :: BenchTaskName
  reason :: string

section \<open>index.ts: options\<close>

definition ALL_TASKS :: "BenchTaskName list" where
  "ALL_TASKS = [''image-buffer'', ''image-stream'', ''kitchen-sink'', ''text-layout'',
     ''encode-png'', ''encode-webp'', ''encode-svg'']"

record CliOptions =
  tasks :: "BenchTaskName list"
  iterations :: nat
  warmup :: nat
  saveImages :: bool
  saveDir :: string
  reportJsonPath :: string
  reportMarkdownPath :: string

record SavedImageRecord =
  img_renderer :: string
  img_task :: BenchTaskName
  img_format :: image_format
  path :: string

text \<open>
  Strings are strings of ASCII characters here.  Among these the white space of
  \<^verbatim>\<open>trim\<close> and \<^verbatim>\<open>parseInt\<close> is space, tab, line feed, vertical tab, form feed and carriage
  return, as in JavaScript.  JavaScript has more white space beyond ASCII (the no-break
  space, for one); a string with such characters is outside of what these definitions
  describe, and the properties of the options are stated for ASCII option values only.
\<close>

definition is_space :: "char \<Rightarrow> bool" where
  "is_space c = (of_char c \<in> {32, 9, 10, 11, 12, 13 :: nat})"

definition is_digit :: "char \<Rightarrow> bool" where
  "is_digit c = (48 \<le> (of_char c :: nat) \<and> (of_char c :: nat) \<le> 57)"

definition trim :: "string \<Rightarrow> string" where
  "trim s = rev (dropWhile is_space (rev (dropWhile is_space s)))"

text \<open>
  \<^verbatim>\<open>item.split(",")\<close>: the pieces between the commas, empty ones included.  The option
  \<^verbatim>\<open>--workload\<close> is declared \<^verbatim>\<open>multiple\<close>, so \<open>parseTasks\<close> receives an array of strings
  or nothing.
\<close>

fun split_comma :: "string \<Rightarrow> string list" where
  "split_comma [] = [[]]"
| "split_comma (c # cs) =
     (if c = CHR '','' then [] # split_comma cs
      else (case split_comma cs of [] \<Rightarrow> [[c]] | p # ps \<Rightarrow> (c # p) # ps))"

fun join_with :: "string \<Rightarrow> string list \<Rightarrow> string" where
  "join_with sep [] = []"
| "join_with sep [x] = x"
| "join_with sep (x # y # ys) = x @ sep @ join_with sep (y # ys)"

text \<open>
  \<^verbatim>\<open>Number.parseInt(value, 10)\<close>: leading white space, an optional sign, then the longest
  prefix of decimal digits; \<open>NaN\<close> when there is no digit.  The integer is rounded to
  binary64, and is an infinity from \<open>2 ^ 1024 - 2 ^ 970\<close> on.
\<close>

datatype parsed = NaN | Num number | PosInfinity | NegInfinity

definition digits_value :: "string \<Rightarrow> nat" where
  "digits_value ds = foldl (\<lambda>acc c. 10 * acc + (of_char c - 48)) 0 ds"

definition parseInt :: "string \<Rightarrow> parsed" where
  "parseInt s =
     (let s1 = dropWhile is_space s;
          negative = (case s1 of c # _ \<Rightarrow> c = CHR ''-'' | [] \<Rightarrow> False);
          s2 = (case s1 of c # cs \<Rightarrow> if c = CHR ''+'' \<or> c = CHR ''-'' then cs else s1 | [] \<Rightarrow> s1);
          ds = takeWhile is_digit s2
      in if ds = [] then NaN
         else let v = rnd64 (of_nat (digits_value ds))
              in if 2 ^ 1024 \<le> v then (if negative then NegInfinity else PosInfinity)
                 else Num (if negative then - v else v))"

text \<open>
  The counts accepted by \<open>parseInteger\<close> are positive integers; the loops of \<open>runCase\<close>
  count with them, so they are kept as natural numbers.
\<close>

definition parseInteger :: "string option \<Rightarrow> nat \<Rightarrow> string \<Rightarrow> error + nat" where
  "parseInteger v fallback label =
     (case v of
        None \<Rightarrow> Inr fallback
      | Some s \<Rightarrow>
          (case parseInt s of
             Num parsed \<Rightarrow>
               if parsed \<le> 0 then Inl (Error (label @ '' must be a positive integer''))
               else Inr (nat \<lfloor>parsed\<rfloor>)
           | _ \<Rightarrow> Inl (Error (label @ '' must be a positive integer''))))"

definition requested_names :: "string list \<Rightarrow> string list" where
  "requested_names items =
     filter (\<lambda>item. item \<noteq> []) (map trim (concat (map split_comma items)))"

definition parseTasks :: "string list option \<Rightarrow> error + BenchTaskName list" where
  "parseTasks v =
     (case v of
        None \<Rightarrow> Inr ALL_TASKS
      | Some items \<Rightarrow>
          (let requested = requested_names items
           in if length requested = 0
              then Inl (Error ''--workload requires at least one task name'')
              else let invalid = filter (\<lambda>item. item \<notin> set ALL_TASKS) requested
                   in if length invalid > 0
                      then Inl (Error (''Unknown workload(s): '' @ join_with '', '' invalid))
                      else Inr requested))"

text \<open>
  The values \<^verbatim>\<open>parseArgs\<close> hands over, with the two environment variables and the
  working directory that \<open>parseCliOptions\<close> reads.
\<close>

record CliValues =
  cli_workload :: "string list option"
  cli_iterations :: "string option"
  cli_warmup :: "string option"
  cli_save_images :: bool
  cli_save_dir :: "string option"
  env_BENCH_WARMUP :: "string option"
  env_BENCH_ITERATIONS :: "string option"
  cwd :: string

text \<open>
  \<^verbatim>\<open>join\<close> of \<^verbatim>\<open>node:path\<close> puts a slash between the parts and normalises the result
  (repeated slashes, \<^verbatim>\<open>.\<close> and \<^verbatim>\<open>..\<close> segments).  The normalisation is left out: the paths
  are only handed on to the file system and to the reports.
\<close>

definition join :: "string list \<Rightarrow> string" where
  "join parts = join_with ''/'' parts"

definition nullish :: "'a option \<Rightarrow> 'a option \<Rightarrow> 'a option" where
  "nullish a b = (case a of Some x \<Rightarrow> Some x | None \<Rightarrow> b)"

definition parseCliOptions :: "CliValues \<Rightarrow> error + CliOptions" where
  "parseCliOptions v =
     (let saveDirArg = cli_save_dir v;
          save = (cli_save_images v \<or> saveDirArg \<noteq> None)
      in case parseTasks (cli_workload v) of
           Inl e \<Rightarrow> Inl e
         | Inr ts \<Rightarrow>
            (case parseInteger (nullish (cli_warmup v) (env_BENCH_WARMUP v)) 3 ''warmup'' of
               Inl e \<Rightarrow> Inl e
             | Inr w \<Rightarrow>
                (case parseInteger (nullish (cli_iterations v) (env_BENCH_ITERATIONS v)) 12
                        ''iterations'' of
                   Inl e \<Rightarrow> Inl e
                 | Inr n \<Rightarrow>
                     Inr \<lparr>tasks = ts, iterations = n, warmup = w, saveImages = save,
                          saveDir = (case saveDirArg of Some d \<Rightarrow> d
                                     | None \<Rightarrow> join [cwd v, ''outputs'', ''samples'']),
                          reportJsonPath = join [cwd v, ''outputs'', ''benchmark-report.json''],
                          reportMarkdownPath = join [cwd v, ''outputs'', ''benchmark-report.md'']\<rparr>)))"

section \<open>index.ts: one case\<close>

definition round_digits :: "number \<Rightarrow> nat \<Rightarrow> number" where
  "round_digits v digits =
     (let factor = 10 ^ digits in js_div (Math_round (js_mul v factor)) factor)"

fun outputValueAsNumber :: "TaskOutput \<Rightarrow> number" where
  "outputValueAsNumber (Image bytes f buf) = bytes"
| "outputValueAsNumber (Metric v) = v"

text \<open>
  The host: the clock \<^verbatim>\<open>performance.now()\<close>, \<^verbatim>\<open>process.memoryUsage()\<close> and the optional
  \<^verbatim>\<open>globalThis.gc\<close>, all acting on the same world as the renderers.
\<close>

record MemoryUsage =
  rss :: number
  heapUsed :: number

record 'w host =
  performance_now :: "'w \<Rightarrow> number \<times> 'w"
  memoryUsage :: "'w \<Rightarrow> MemoryUsage \<times> 'w"
  gc :: "('w \<Rightarrow> 'w) option"

definition call_gc :: "'w host \<Rightarrow> 'w \<Rightarrow> 'w" where
  "call_gc h w = (case gc h of Some g \<Rightarrow> g w | None \<Rightarrow> w)"

text \<open>The warmup loop: \<open>n\<close> calls of \<open>run\<close>, results dropped; the first error ends it.\<close>

primrec warmup_loop ::
  "'w BenchRenderer \<Rightarrow> BenchTaskName \<Rightarrow> nat \<Rightarrow> 'w \<Rightarrow> error option \<times> 'w" where
  "warmup_loop renderer task 0 w = (None, w)"
| "warmup_loop renderer task (Suc n) w =
     (case run renderer task w of
        (Inl e, w1) \<Rightarrow> (Some e, w1)
      | (Inr out, w1) \<Rightarrow> warmup_loop renderer task n w1)"

text \<open>The local variables of \<open>runCase\<close> that the measured loop updates.\<close>

record measured =
  times_ms :: "number list"
  outputs :: "number list"
  rssPeak :: number
  heapPeak :: number
  cur_outputKind :: output_kind
  cur_outputUnit :: output_unit
  sample :: "(image_format \<times> buffer) option"

definition initial_measured :: "MemoryUsage \<Rightarrow> measured" where
  "initial_measured baseline =
     \<lparr>times_ms = [], outputs = [], rssPeak = rss baseline, heapPeak = heapUsed baseline,
      cur_outputKind = KMetric, cur_outputUnit = Value, sample = None\<rparr>"

definition measure_step ::
  "bool \<Rightarrow> number \<Rightarrow> TaskOutput \<Rightarrow> number \<Rightarrow> MemoryUsage \<Rightarrow> measured \<Rightarrow> measured" where
  "measure_step save start out end memory m =
     m\<lparr>cur_outputKind := kind out,
       cur_outputUnit := (if kind out = KImage then Bytes else Value),
       sample := (case out of
                    Image b f buf \<Rightarrow> if save \<and> sample m = None then Some (f, buf) else sample m
                  | Metric v \<Rightarrow> sample m),
       times_ms := times_ms m @ [js_sub end start],
       outputs := outputs m @ [outputValueAsNumber out],
       rssPeak := max (rssPeak m) (rss memory),
       heapPeak := max (heapPeak m) (heapUsed memory)\<rparr>"

primrec measure_loop ::
  "'w host \<Rightarrow> 'w BenchRenderer \<Rightarrow> BenchTaskName \<Rightarrow> bool \<Rightarrow> nat \<Rightarrow> measured \<Rightarrow> 'w
     \<Rightarrow> (error + measured) \<times> 'w" where
  "measure_loop h renderer task save 0 m w = (Inr m, w)"
| "measure_loop h renderer task save (Suc n) m w =
     (let (start, w1) = performance_now h w
      in case run renderer task w1 of
           (Inl e, w2) \<Rightarrow> (Inl e, w2)
         | (Inr out, w2) \<Rightarrow>
             (let (end, w3) = performance_now h w2;
                  (memory, w4) = memoryUsage h w3
              in measure_loop h renderer task save n (measure_step save start out end memory m) w4))"

definition case_stats ::
  "'w BenchRenderer \<Rightarrow> BenchTaskName \<Rightarrow> CliOptions \<Rightarrow> MemoryUsage \<Rightarrow> measured \<Rightarrow> MemoryUsage
     \<Rightarrow> BenchCaseStats" where
  "case_stats renderer task options baseline m ending =
     \<lparr>st_renderer = name renderer,
      st_task = task,
      st_iterations = iterations options,
      st_warmup = warmup options,
      avgMs = round_digits (mean (times_ms m)) 3,
      p95Ms = round_digits (percentile (times_ms m) (rnd64 (95 / 100))) 3,
      minMs = round_digits (Math_min (times_ms m)) 3,
      maxMs = round_digits (Math_max (times_ms m)) 3,
      rssPeakDeltaMb = round_digits (formatMb (js_sub (rssPeak m) (rss baseline))) 3,
      heapPeakDeltaMb = round_digits (formatMb (js_sub (heapPeak m) (heapUsed baseline))) 3,
      heapEndDeltaMb = round_digits (formatMb (js_sub (heapUsed ending) (heapUsed baseline))) 3,
      outputKind = cur_outputKind m,
      outputAverage = round_digits (mean (outputs m)) 3,
      outputUnit = cur_outputUnit m\<rparr>"

definition runCase ::
  "BenchTaskName \<Rightarrow> 'w BenchRenderer \<Rightarrow> CliOptions \<Rightarrow> 'w host \<Rightarrow> 'w
     \<Rightarrow> (error + BenchCaseStats \<times> (image_format \<times> buffer) option) \<times> 'w" where
  "runCase task renderer options h w =
     (case warmup_loop renderer task (warmup options) w of
        (Some e, w1) \<Rightarrow> (Inl e, w1)
      | (None, w1) \<Rightarrow>
          (let (baseline, w2) = memoryUsage h (call_gc h w1)
           in case measure_loop h renderer task (saveImages options) (iterations options)
                     (initial_measured baseline) w2 of
                (Inl e, w3) \<Rightarrow> (Inl e, w3)
              | (Inr m, w3) \<Rightarrow>
                  (let (ending, w4) = memoryUsage h (call_gc h w3)
                   in (Inr (case_stats renderer task options baseline m ending, sample m), w4))))"

section \<open>index.ts: the report\<close>

text \<open>
  A line of the Markdown report.  Lines that print numbers or a record keep what they
  print as it is: the conversion of a number to text (\<^verbatim>\<open>toFixed\<close>, template strings) is
  not modelled.  The report is the list of its lines, which the source joins with line
  feeds.
\<close>

datatype md_line =
    Text string
  | WarmupLine nat
  | IterationsLine nat
  | StatsRow BenchCaseStats
  | SkipRow BenchCaseSkip
  | ImageRow SavedImageRecord

record process_info =
  date_iso :: string
  node_version :: string
  platform :: string
  arch :: string
  cpu_model :: "string option"

definition task_section :: "BenchCaseStats list \<Rightarrow> BenchTaskName \<Rightarrow> md_line list" where
  "task_section sts task =
     (let rows = sort_key avgMs (filter (\<lambda>entry. st_task entry = task) sts)
      in [Text (''## '' @ task), Text []] @
         (if length rows = 0 then [Text ''No successful runs.'', Text []]
          else [Text (''| Renderer | Avg (ms) | P95 (ms) | Min (ms) | Max (ms) | RSS peak ''
                      @ [CHR 0xCE, CHR 0x94] @ '' (MB) | Heap peak '' @ [CHR 0xCE, CHR 0x94]
                      @ '' (MB) | Output |''),
                Text ''|---|---:|---:|---:|---:|---:|---:|---:|''] @
               map StatsRow rows @ [Text []]))"

definition skipped_section :: "BenchCaseSkip list \<Rightarrow> md_line list" where
  "skipped_section sk =
     (if length sk > 0
      then [Text ''## Unsupported / Skipped'', Text [], Text ''| Renderer | Task | Reason |'',
            Text ''|---|---|---|''] @ map SkipRow sk @ [Text []]
      else [])"

definition saved_section :: "SavedImageRecord list \<Rightarrow> md_line list" where
  "saved_section imgs =
     (if length imgs > 0
      then [Text ''## Saved Images'', Text [], Text ''| Renderer | Task | Format | Path |'',
            Text ''|---|---|---|---|''] @ map ImageRow imgs @ [Text []]
      else [])"

definition report_header :: "process_info \<Rightarrow> bool \<Rightarrow> CliOptions \<Rightarrow> md_line list" where
  "report_header info gc_exposed options =
     [Text ''# Node Image Library Benchmark Report'',
      Text [],
      Text (''Generated: '' @ date_iso info),
      Text (''- Node.js: '' @ node_version info),
      Text (''- Platform: '' @ platform info @ '' '' @ arch info),
      Text (''- CPU: '' @ (case cpu_model info of Some c \<Rightarrow> c | None \<Rightarrow> ''unknown'')),
      Text (''- GC exposed: '' @ (if gc_exposed then ''yes'' else ''no'')),
      WarmupLine (warmup options),
      IterationsLine (iterations options),
      Text [],
      Text ''## Method'',
      Text [],
      Text ''- `image-stream` uses in-memory streams sourced from preloaded fixture buffers (disk I/O excluded).'',
      Text ''- Memory columns are per-case peak deltas from per-case baseline (`rss`, `heapUsed`).'',
      Text ''- `text-layout`: canvas/takumi use text layout measurement widths; satori reports SVG output size from text layout generation.'',
      Text []]"

definition buildMarkdownReport ::
  "process_info \<Rightarrow> bool \<Rightarrow> CliOptions \<Rightarrow> BenchCaseStats list \<Rightarrow> BenchCaseSkip list
     \<Rightarrow> SavedImageRecord list \<Rightarrow> md_line list" where
  "buildMarkdownReport info gc_exposed options sts sk imgs =
     report_header info gc_exposed options
     @ concat (map (task_section sts) (tasks options))
     @ skipped_section sk
     @ saved_section imgs"

record report_json =
  generatedAt :: string
  node :: string
  rj_platform :: string
  cpu :: string
  rj_tasks :: "BenchTaskName list"
  rj_warmup :: nat
  rj_iterations :: nat
  gcExposed :: bool
  rj_stats :: "BenchCaseStats list"
  rj_skipped :: "BenchCaseSkip list"
  rj_savedImages :: "SavedImageRecord list"

section \<open>index.ts: the suite\<close>

text \<open>
  What the program leaves behind: the calls of \<^verbatim>\<open>mkdir\<close> and \<^verbatim>\<open>writeFile\<close> in order
  (they are taken to succeed), and the lines on standard output.
\<close>

datatype file_content =
    SampleImage buffer
  | JsonReport report_json
  | MarkdownReport "md_line list"

datatype fs_call = Mkdir string | WriteFile string file_content

datatype out_line =
    Running string BenchTaskName
  | Avg number
  | SkippedLine
  | FailedLine
  | WroteJson string
  | WroteMarkdown string
  | SavedSamples string

record 'w suite =
  world :: 'w
  stats :: "BenchCaseStats list"
  skipped :: "BenchCaseSkip list"
  savedImages :: "SavedImageRecord list"
  fs :: "fs_call list"
  stdout :: "out_line list"

text \<open>
  \<open>toSafeFileName\<close>, on ASCII strings: the letters in lower case, every run of characters
  other than \<^verbatim>\<open>a-z\<close> and \<^verbatim>\<open>0-9\<close> replaced by one dash, the dashes at both ends dropped.
\<close>

definition is_alnum :: "char \<Rightarrow> bool" where
  "is_alnum c = ((97 \<le> (of_char c :: nat) \<and> (of_char c :: nat) \<le> 122) \<or> is_digit c)"

definition to_lower :: "char \<Rightarrow> char" where
  "to_lower c =
     (if 65 \<le> (of_char c :: nat) \<and> (of_char c :: nat) \<le> 90 then char_of (of_char c + (32 :: nat))
      else c)"

primrec dash_runs :: "bool \<Rightarrow> string \<Rightarrow> string" where
  "dash_runs in_run [] = []"
| "dash_runs in_run (c # cs) =
     (if is_alnum c then c # dash_runs False cs
      else if in_run then dash_runs True cs
      else CHR ''-'' # dash_runs True cs)"

definition toSafeFileName :: "string \<Rightarrow> string" where
  "toSafeFileName input =
     (let dashed = dash_runs False (map to_lower input);
          is_dash = (\<lambda>c. c = CHR ''-'')
      in rev (dropWhile is_dash (rev (dropWhile is_dash dashed))))"

fun format_name :: "image_format \<Rightarrow> string" where
  "format_name Png = ''png''"
| "format_name Webp = ''webp''"
| "format_name Svg = ''svg''"

text \<open>\<^verbatim>\<open>for (const renderer of benchRenderers) await renderer.prepare?.(context)\<close>\<close>

primrec prepare_all :: "'w BenchRenderer list \<Rightarrow> 'w \<Rightarrow> error option \<times> 'w" where
  "prepare_all [] w = (None, w)"
| "prepare_all (renderer # rest) w =
     (case prepare renderer of
        None \<Rightarrow> prepare_all rest w
      | Some p \<Rightarrow> (case p w of (Some e, w1) \<Rightarrow> (Some e, w1) | (None, w1) \<Rightarrow> prepare_all rest w1))"

text \<open>The body of the two nested loops: one case, with its \<^verbatim>\<open>try\<close> and \<^verbatim>\<open>catch\<close>.\<close>

definition save_sample ::
  "CliOptions \<Rightarrow> BenchTaskName \<Rightarrow> 'w BenchRenderer \<Rightarrow> (image_format \<times> buffer) option \<Rightarrow> 'w suite
     \<Rightarrow> 'w suite" where
  "save_sample options task renderer smp s =
     (case smp of
        None \<Rightarrow> s
      | Some (f, buf) \<Rightarrow>
          if saveImages options
          then (let fileName = toSafeFileName task @ ''__'' @ toSafeFileName (name renderer)
                                 @ ''.'' @ format_name f;
                    filePath = join [saveDir options, fileName]
                in s\<lparr>fs := fs s @ [WriteFile filePath (SampleImage buf)],
                     savedImages := savedImages s @
                       [\<lparr>img_renderer = name renderer, img_task = task, img_format = f,
                         path = filePath\<rparr>]\<rparr>)
          else s)"

definition run_one ::
  "'w host \<Rightarrow> CliOptions \<Rightarrow> BenchTaskName \<Rightarrow> 'w BenchRenderer \<Rightarrow> 'w suite
     \<Rightarrow> error option \<times> 'w suite" where
  "run_one h options task renderer s =
     (let s1 = s\<lparr>stdout := stdout s @ [Running (name renderer) task]\<rparr>
      in case runCase task renderer options h (world s1) of
           (Inr (st, smp), w) \<Rightarrow>
             (None, save_sample options task renderer smp
                      (s1\<lparr>world := w, stats := stats s1 @ [st],
                          stdout := stdout s1 @ [Avg (avgMs st)]\<rparr>))
         | (Inl (UnsupportedTaskError msg), w) \<Rightarrow>
             (None, s1\<lparr>world := w,
                       skipped := skipped s1 @
                         [\<lparr>sk_renderer = name renderer, sk_task = task, reason = msg\<rparr>],
                       stdout := stdout s1 @ [SkippedLine]\<rparr>)
         | (Inl (Error msg), w) \<Rightarrow>
             (Some (Error msg), s1\<lparr>world := w, stdout := stdout s1 @ [FailedLine]\<rparr>))"

primrec run_renderers ::
  "'w host \<Rightarrow> CliOptions \<Rightarrow> BenchTaskName \<Rightarrow> 'w BenchRenderer list \<Rightarrow> 'w suite
     \<Rightarrow> error option \<times> 'w suite" where
  "run_renderers h options task [] s = (None, s)"
| "run_renderers h options task (renderer # rest) s =
     (case run_one h options task renderer s of
        (Some e, s1) \<Rightarrow> (Some e, s1)
      | (None, s1) \<Rightarrow> run_renderers h options task rest s1)"

primrec run_tasks ::
  "'w host \<Rightarrow> CliOptions \<Rightarrow> 'w BenchRenderer list \<Rightarrow> BenchTaskName list \<Rightarrow> 'w suite
     \<Rightarrow> error option \<times> 'w suite" where
  "run_tasks h options renderers [] s = (None, s)"
| "run_tasks h options renderers (task # rest) s =
     (case run_renderers h options task renderers s of
        (Some e, s1) \<Rightarrow> (Some e, s1)
      | (None, s1) \<Rightarrow> run_tasks h options renderers rest s1)"

definition write_reports ::
  "'w host \<Rightarrow> process_info \<Rightarrow> CliOptions \<Rightarrow> string \<Rightarrow> 'w suite \<Rightarrow> 'w suite" where
  "write_reports h info options dir s =
     (let reportJson =
            \<lparr>generatedAt = date_iso info, node = node_version info,
             rj_platform = platform info @ ''-'' @ arch info,
             cpu = (case cpu_model info of Some c \<Rightarrow> c | None \<Rightarrow> ''unknown''),
             rj_tasks = tasks options, rj_warmup = warmup options,
             rj_iterations = iterations options, gcExposed = (gc h \<noteq> None),
             rj_stats = stats s, rj_skipped = skipped s, rj_savedImages = savedImages s\<rparr>;
          reportMarkdown =
            buildMarkdownReport info (gc h \<noteq> None) options (stats s) (skipped s) (savedImages s)
      in s\<lparr>fs := fs s @ [Mkdir (join [dir, ''outputs'']),
                          WriteFile (reportJsonPath options) (JsonReport reportJson),
                          WriteFile (reportMarkdownPath options) (MarkdownReport reportMarkdown)],
           stdout := stdout s @ [WroteJson (reportJsonPath options),
                                 WroteMarkdown (reportMarkdownPath options)] @
                     (if saveImages options then [SavedSamples (saveDir options)] else [])\<rparr>)"

text \<open>
  The module body of index.ts.  \<open>createBenchContext\<close> only reads the fixture files and is
  left out.  The result is the error that ended the program, if any, and what the program
  had done by then.  \<open>suite_start\<close> is the state when the two loops begin: the renderers
  prepared, the directory of the samples made if samples are kept.
\<close>

definition initial :: "'w \<Rightarrow> 'w suite" where
  "initial w = \<lparr>world = w, stats = [], skipped = [], savedImages = [], fs = [], stdout = []\<rparr>"

definition suite_start :: "CliOptions \<Rightarrow> 'w \<Rightarrow> 'w suite" where
  "suite_start options w1 =
     (initial w1)\<lparr>fs := (if saveImages options then [Mkdir (saveDir options)] else [])\<rparr>"

definition bench_main ::
  "'w host \<Rightarrow> process_info \<Rightarrow> 'w BenchRenderer list \<Rightarrow> CliValues \<Rightarrow> 'w
     \<Rightarrow> error option \<times> 'w suite" where
  "bench_main h info renderers v w =
     (case parseCliOptions v of
        Inl e \<Rightarrow> (Some e, initial w)
      | Inr options \<Rightarrow>
          (case prepare_all renderers w of
             (Some e, w1) \<Rightarrow> (Some e, initial w1)
           | (None, w1) \<Rightarrow>
               (case run_tasks h options renderers (tasks options) (suite_start options w1) of
                  (Some e, s2) \<Rightarrow> (Some e, s2)
                | (None, s2) \<Rightarrow> (None, write_reports h info options (cwd v) s2))))"

section \<open>Vocabulary of the properties\<close>

text \<open>
  The cases of a suite in the order of the two loops, and the same loops run over that
  list.
\<close>

definition case_list :: "BenchTaskName list \<Rightarrow> 'w BenchRenderer list \<Rightarrow> (BenchTaskName \<times> 'w BenchRenderer) list" where
  "case_list ts renderers = concat (map (\<lambda>task. map (\<lambda>renderer. (task, renderer)) renderers) ts)"

primrec run_cases ::
  "'w host \<Rightarrow> CliOptions \<Rightarrow> (BenchTaskName \<times> 'w BenchRenderer) list \<Rightarrow> 'w suite
     \<Rightarrow> error option \<times> 'w suite" where
  "run_cases h options [] s = (None, s)"
| "run_cases h options (c # cs) s =
     (case run_one h options (fst c) (snd c) s of
        (Some e, s1) \<Rightarrow> (Some e, s1)
      | (None, s1) \<Rightarrow> run_cases h options cs s1)"

text \<open>The (backend, workload) pair a record is about.\<close>

definition stat_key :: "BenchCaseStats \<Rightarrow> string \<times> BenchTaskName" where
  "stat_key st = (st_renderer st, st_task st)"

definition skip_key :: "BenchCaseSkip \<Rightarrow> string \<times> BenchTaskName" where
  "skip_key sk = (sk_renderer sk, sk_task sk)"

definition case_key :: "BenchTaskName \<times> 'w BenchRenderer \<Rightarrow> string \<times> BenchTaskName" where
  "case_key c = (name (snd c), fst c)"

text \<open>What a renderer's \<open>run\<close> may do, whatever the world it is called in.\<close>

definition always_unsupported :: "'w BenchRenderer \<Rightarrow> BenchTaskName \<Rightarrow> bool" where
  "always_unsupported renderer task =
     (\<forall>w. \<exists>msg. fst (run renderer task w) = Inl (UnsupportedTaskError msg))"

definition never_fatal :: "'w BenchRenderer \<Rightarrow> bool" where
  "never_fatal renderer = (\<forall>task w msg. fst (run renderer task w) \<noteq> Inl (Error msg))"

text \<open>
  The calls of \<open>run\<close> that a case makes: \<open>run_called_in h renderer task options w w0\<close> says
  that \<open>runCase\<close>, started in the world \<open>w\<close>, calls \<open>run\<close> in the world \<open>w0\<close>, every earlier
  call of the case having returned an output.  The call is a warmup call, after \<open>k\<close>
  completed warmup calls with \<open>k\<close> below the warmup count; or it is a call of the measured
  loop, after all the warmup calls, the baseline reading of the memory, \<open>k\<close> completed
  iterations with \<open>k\<close> below the iteration count, and the reading of the clock that starts
  the next iteration.
\<close>

inductive run_called_in ::
  "'w host \<Rightarrow> 'w BenchRenderer \<Rightarrow> BenchTaskName \<Rightarrow> CliOptions \<Rightarrow> 'w \<Rightarrow> 'w \<Rightarrow> bool"
  for h renderer task options w where
  in_warmup:
    "k < warmup options \<Longrightarrow> warmup_loop renderer task k w = (None, w0) \<Longrightarrow>
       run_called_in h renderer task options w w0"
| in_measured:
    "warmup_loop renderer task (warmup options) w = (None, w1) \<Longrightarrow>
     memoryUsage h (call_gc h w1) = (baseline, w2) \<Longrightarrow>
     k < iterations options \<Longrightarrow>
     measure_loop h renderer task (saveImages options) k (initial_measured baseline) w2
       = (Inr m, w3) \<Longrightarrow>
     performance_now h w3 = (start, w0) \<Longrightarrow>
       run_called_in h renderer task options w w0"

text \<open>The writes of the two reports, among the calls of the file system.\<close>

fun is_report_write :: "fs_call \<Rightarrow> bool" where
  "is_report_write (WriteFile p (JsonReport r)) = True"
| "is_report_write (WriteFile p (MarkdownReport ls)) = True"
| "is_report_write c = False"

text \<open>
  Option values made of ASCII characters: the items of \<^verbatim>\<open>--workload\<close>, and the counts
  given on the command line or in the environment.
\<close>

definition ascii :: "string \<Rightarrow> bool" where
  "ascii s = (\<forall>c\<in>set s. (of_char c :: nat) < 128)"

definition ascii_options :: "CliValues \<Rightarrow> bool" where
  "ascii_options v =
     ((\<forall>items\<in>set_option (cli_workload v). \<forall>item\<in>set items. ascii item) \<and>
      (\<forall>s\<in>set_option (cli_warmup v) \<union> set_option (env_BENCH_WARMUP v) \<union>
           set_option (cli_iterations v) \<union> set_option (env_BENCH_ITERATIONS v). ascii s))"

text \<open>A count that is absent, or that \<open>parseInt\<close> reads as a positive number.\<close>

definition positive_count :: "string option \<Rightarrow> bool" where
  "positive_count v =
     (case v of None \<Rightarrow> True
      | Some s \<Rightarrow> (case parseInt s of Num parsed \<Rightarrow> 0 < parsed | _ \<Rightarrow> False))"

text \<open>The rows of each kind in a list of report lines, in order.\<close>

fun stats_rows :: "md_line list \<Rightarrow> BenchCaseStats list" where
  "stats_rows [] = []"
| "stats_rows (StatsRow r # ls) = r # stats_rows ls"
| "stats_rows (l # ls) = stats_rows ls"

fun skip_rows :: "md_line list \<Rightarrow> BenchCaseSkip list" where
  "skip_rows [] = []"
| "skip_rows (SkipRow r # ls) = r # skip_rows ls"
| "skip_rows (l # ls) = skip_rows ls"

fun image_rows :: "md_line list \<Rightarrow> SavedImageRecord list" where
  "image_rows [] = []"
| "image_rows (ImageRow r # ls) = r # image_rows ls"
| "image_rows (l # ls) = image_rows ls"

section \<open>Test fixtures\<close>

text \<open>
  A host whose world is the list of the clock readings still to come, and whose memory
  readings depend on how many are left: the resident set grows by 1 MiB and the heap
  shrinks by 512 KiB with every reading taken.  \<open>fake_metric\<close> returns the metric 100 on
  every call and leaves the world alone.
\<close>

definition example_host :: "number list host" where
  "example_host =
     \<lparr>performance_now = (\<lambda>w. case w of [] \<Rightarrow> (0, []) | t # ts \<Rightarrow> (t, ts)),
      memoryUsage = (\<lambda>w. (\<lparr>rss = 104857600 - 1048576 * of_nat (length w),
                               heapUsed = 52428800 + 524288 * of_nat (length w)\<rparr>, w)),
      gc = None\<rparr>"

definition fake_metric :: "number list BenchRenderer" where
  "fake_metric =
     \<lparr>name = ''fake-metric'', prepare = None, run = (\<lambda>task w. (Inr (Metric 100), w))\<rparr>"

definition example_options :: CliOptions where
  "example_options =
     \<lparr>tasks = [''text-layout''], iterations = 3, warmup = 1, saveImages = False,
      saveDir = ''out/samples'', reportJsonPath = ''out/benchmark-report.json'',
      reportMarkdownPath = ''out/benchmark-report.md''\<rparr>"

text \<open>Three iterations of 2, 3 and 4 ms.\<close>

definition example_clock :: "number list" where
  "example_clock = [10, 12, 13, 16, 17, 21]"

definition example_measured :: measured where
  "example_measured =
     \<lparr>times_ms = [2, 3, 4], outputs = [100, 100, 100], rssPeak = 104857600,
      heapPeak = 55574528, cur_outputKind = KMetric, cur_outputUnit = Value, sample = None\<rparr>"

definition example_case_stats :: BenchCaseStats where
  "example_case_stats =
     \<lparr>st_renderer = ''fake-metric'', st_task = ''text-layout'', st_iterations = 3, st_warmup = 1,
      avgMs = 3, p95Ms = 4, minMs = 2, maxMs = 4,
      rssPeakDeltaMb = 6, heapPeakDeltaMb = 0, heapEndDeltaMb = - 3,
      outputKind = KMetric, outputAverage = 100, outputUnit = Value\<rparr>"

text \<open>
  Three iterations of 3204.5485 ms each, by a clock that reads 593.129 ms at the start of
  the first.  All six readings are binary64 values, written as the fractions they are.
\<close>

definition slow_clock :: "number list" where
  "slow_clock =
     [20379764457971 / 34359738368, 4175590800177211 / 1099511627776,
      2087799501384591 / 549755813888, 7699037340291321 / 1099511627776,
      7699040698373669 / 1099511627776, 2739863045873 / 268435456]"

definition slow_measured :: measured where
  "slow_measured =
     \<lparr>times_ms = [3523438337522139 / 1099511627776, 3523438337522139 / 1099511627776,
                  3523438337522139 / 1099511627776],
      outputs = [100, 100, 100], rssPeak = 104857600, heapPeak = 55574528,
      cur_outputKind = KMetric, cur_outputUnit = Value, sample = None\<rparr>"

definition slow_case_stats :: BenchCaseStats where
  "slow_case_stats =
     \<lparr>st_renderer = ''fake-metric'', st_task = ''text-layout'', st_iterations = 3, st_warmup = 1,
      avgMs = 3523437787766325 / 1099511627776,
      p95Ms = 3523438887277953 / 1099511627776,
      minMs = 3523438887277953 / 1099511627776,
      maxMs = 3523438887277953 / 1099511627776,
      rssPeakDeltaMb = 6, heapPeakDeltaMb = 0, heapEndDeltaMb = - 3,
      outputKind = KMetric, outputAverage = 100, outputUnit = Value\<rparr>"

text \<open>
  \<open>no_svg\<close> declares that it cannot encode SVG and returns a four-byte image for every
  other task; \<open>flaky\<close> uses up one reading of the clock on every call, which it returns
  as a metric, and fails with an error of its own when no reading is left.
\<close>

definition no_svg :: "number list BenchRenderer" where
  "no_svg =
     \<lparr>name = ''no-svg'', prepare = None,
      run = (\<lambda>task w. (if task = ''encode-svg''
                         then Inl (UnsupportedTaskError ''encode-svg: cannot encode svg'')
                         else Inr (Image 4 Png [137, 80, 78, 71]), w))\<rparr>"

definition flaky :: "number list BenchRenderer" where
  "flaky =
     \<lparr>name = ''flaky'', prepare = None,
      run = (\<lambda>task w. case w of [] \<Rightarrow> (Inl (Error ''no reading left''), [])
                       | t # ts \<Rightarrow> (Inr (Metric t), ts))\<rparr>"

definition example_info :: process_info where
  "example_info =
     \<lparr>date_iso = ''2026-01-01T00:00:00.000Z'', node_version = ''v24.0.0'', platform = ''linux'',
      arch = ''x64'', cpu_model = None\<rparr>"

definition example_cli :: "string list option \<Rightarrow> string option \<Rightarrow> string option \<Rightarrow> CliValues" where
  "example_cli workload its wu =
     \<lparr>cli_workload = workload, cli_iterations = its, cli_warmup = wu, cli_save_images = False,
      cli_save_dir = None, env_BENCH_WARMUP = None, env_BENCH_ITERATIONS = None,
      cwd = ''/bench''\<rparr>"

text \<open>
  \<open>unprepared\<close> fails in its \<open>prepare\<close>.  \<open>suite_options ts\<close> are the options that
  \<^verbatim>\<open>--workload ts --iterations 1 --warmup 1\<close> is parsed to in the directory \<^verbatim>\<open>/bench\<close>,
  \<open>twice_options ts\<close> those of \<^verbatim>\<open>--workload ts --iterations 2 --warmup 2\<close>.
\<close>

definition unprepared :: "number list BenchRenderer" where
  "unprepared =
     \<lparr>name = ''unprepared'', prepare = Some (\<lambda>w. (Some (Error ''no fonts''), w)),
      run = (\<lambda>task w. (Inr (Metric 1), w))\<rparr>"

definition suite_options :: "BenchTaskName list \<Rightarrow> CliOptions" where
  "suite_options ts =
     \<lparr>tasks = ts, iterations = 1, warmup = 1, saveImages = False,
      saveDir = ''/bench/outputs/samples'',
      reportJsonPath = ''/bench/outputs/benchmark-report.json'',
      reportMarkdownPath = ''/bench/outputs/benchmark-report.md''\<rparr>"

definition twice_options :: "BenchTaskName list \<Rightarrow> CliOptions" where
  "twice_options ts =
     \<lparr>tasks = ts, iterations = 2, warmup = 2, saveImages = False,
      saveDir = ''/bench/outputs/samples'',
      reportJsonPath = ''/bench/outputs/benchmark-report.json'',
      reportMarkdownPath = ''/bench/outputs/benchmark-report.md''\<rparr>"

section \<open>Properties of the rounding\<close>

text \<open>
  \<open>exponent_of\<close> finds the binade: \<open>2 powi e \<le> x < 2 powi (e + 1)\<close>.  From it, \<open>rnd64\<close>
  is monotone, odd, idempotent, and exact on the integers up to \<open>2 ^ 53\<close>.
\<close>

lemma bitlen_rat_bounds:
  assumes "0 < p"
  shows "2 powi (bitlen p - 1) \<le> (of_int p :: rat)" and "(of_int p :: rat) < 2 powi bitlen p"
proof -
  have b: "2 ^ nat (bitlen p - 1) \<le> p" "p < 2 ^ nat (bitlen p)"
    using bitlen_bounds[OF assms] by auto
  have ge1: "1 \<le> bitlen p"
    using assms bitlen_eq_zero_iff[of p] bitlen_nonneg[of p] by linarith
  have "(of_int (2 ^ nat (bitlen p - 1)) :: rat) \<le> of_int p"
    using b(1) of_int_le_iff by blast
  then show "2 powi (bitlen p - 1) \<le> (of_int p :: rat)"
    using ge1 by (simp add: power_int_nonneg_exp)
  have "(of_int p :: rat) < of_int (2 ^ nat (bitlen p))"
    using b(2) of_int_less_iff by blast
  then show "(of_int p :: rat) < 2 powi bitlen p"
    using ge1 by (simp add: power_int_nonneg_exp)
qed

lemma exponent_of_bounds:
  assumes "0 < x"
  shows "2 powi exponent_of x \<le> x" and "x < 2 powi (exponent_of x + 1)"
proof -
  obtain p q where pq: "quotient_of x = (p, q)" by (cases "quotient_of x")
  have q: "0 < q" using quotient_of_denom_pos[OF pq] .
  have x: "x = of_int p / of_int q" using quotient_of_div[OF pq] .
  have p: "0 < p" using assms q x by (simp add: zero_less_divide_iff)
  define d where "d = bitlen p - bitlen q"
  have e: "exponent_of x = (if 2 powi d \<le> x then d else d - 1)"
    by (simp add: exponent_of_def pq d_def Let_def)
  note bp = bitlen_rat_bounds[OF p] and bq = bitlen_rat_bounds[OF q]
  have qpos: "(0::rat) < of_int q" using q by simp
  have "x * of_int q = of_int p" using x qpos by simp
  have lo: "2 powi (d - 1) < x"
  proof -
    have "2 powi (d - 1) * (of_int q :: rat) < 2 powi (d - 1) * 2 powi bitlen q"
      using bq(2) by (simp add: mult_strict_left_mono)
    also have "\<dots> = 2 powi (bitlen p - 1)"
      by (simp add: d_def flip: power_int_add)
    also have "\<dots> \<le> of_int p" by (rule bp(1))
    finally show ?thesis using qpos x by (simp add: pos_less_divide_eq)
  qed
  have hi: "x < 2 powi (d + 1)"
  proof -
    have "(of_int p :: rat) < 2 powi bitlen p" by (rule bp(2))
    also have "\<dots> = 2 powi (d + 1) * 2 powi (bitlen q - 1)"
      by (simp add: d_def flip: power_int_add)
    also have "\<dots> \<le> 2 powi (d + 1) * of_int q"
      using bq(1) by (simp add: mult_left_mono)
    finally show ?thesis using qpos x by (simp add: pos_divide_less_eq)
  qed
  show "2 powi exponent_of x \<le> x"
    using lo e by (auto simp: less_imp_le)
  show "x < 2 powi (exponent_of x + 1)"
    using hi e by (auto simp: not_le)
qed

lemma pow2_less_iff: "(2::rat) powi a < 2 powi b \<longleftrightarrow> a < b"
proof
  assume "(2::rat) powi a < 2 powi b"
  show "a < b"
  proof (rule ccontr)
    assume "\<not> a < b"
    then have "(2::rat) powi b \<le> 2 powi a" by (intro power_int_increasing) auto
    with \<open>(2::rat) powi a < 2 powi b\<close> show False by simp
  qed
next
  assume "a < b"
  then show "(2::rat) powi a < 2 powi b" by (intro power_int_strict_increasing) auto
qed

lemma pow2_le_iff: "(2::rat) powi a \<le> 2 powi b \<longleftrightarrow> a \<le> b"
  using pow2_less_iff[of b a] by (auto simp: not_less[symmetric])

lemma exponent_of_unique:
  assumes "2 powi e \<le> x" "x < 2 powi (e + 1)"
  shows "exponent_of x = e"
proof -
  have x: "0 < x" using assms(1) by (meson less_le_trans zero_less_numeral zero_less_power_int)
  note b = exponent_of_bounds[OF x]
  have "(2::rat) powi e < 2 powi (exponent_of x + 1)" using assms(1) b(2) by simp
  then have 1: "e < exponent_of x + 1" by (simp only: pow2_less_iff)
  have "(2::rat) powi exponent_of x < 2 powi (e + 1)" using assms(2) b(1) by simp
  then have 2: "exponent_of x < e + 1" by (simp only: pow2_less_iff)
  show ?thesis using 1 2 by simp
qed

lemma exponent_of_mono:
  assumes "0 < x" "x \<le> y"
  shows "exponent_of x \<le> exponent_of y"
proof -
  have y: "0 < y" using assms by simp
  have "(2::rat) powi exponent_of x \<le> x" by (rule exponent_of_bounds[OF assms(1)])
  also have "x \<le> y" by fact
  also have "y < 2 powi (exponent_of y + 1)" by (rule exponent_of_bounds[OF y])
  finally have "exponent_of x < exponent_of y + 1" by (simp only: pow2_less_iff)
  then show ?thesis by simp
qed

lemma round_half_even_of_int [simp]: "round_half_even (of_int k) = k"
  by (simp add: round_half_even_def)

lemma round_half_even_bounds:
  "of_int (round_half_even y) \<le> y + 1 / 2" "y - 1 / 2 \<le> of_int (round_half_even y)"
  unfolding round_half_even_def Let_def by (auto; linarith)+

lemma round_half_even_range:
  "\<lfloor>y\<rfloor> \<le> round_half_even y" "round_half_even y \<le> \<lfloor>y\<rfloor> + 1"
  by (simp_all add: round_half_even_def Let_def)

lemma round_half_even_mono:
  assumes "x \<le> y"
  shows "round_half_even x \<le> round_half_even y"
proof (cases "\<lfloor>x\<rfloor> = \<lfloor>y\<rfloor>")
  case True
  then have "x - of_int \<lfloor>x\<rfloor> \<le> y - of_int \<lfloor>y\<rfloor>" using assms by simp
  then show ?thesis using True by (auto simp: round_half_even_def Let_def)
next
  case False
  have "\<lfloor>x\<rfloor> \<le> \<lfloor>y\<rfloor>" using assms by (rule floor_mono)
  then have "\<lfloor>x\<rfloor> + 1 \<le> \<lfloor>y\<rfloor>" using False by simp
  then show ?thesis
    using round_half_even_range(2)[of x] round_half_even_range(1)[of y] by linarith
qed

lemma round_half_even_minus: "round_half_even (- y) = - round_half_even y"
proof (cases "y = of_int \<lfloor>y\<rfloor>")
  case True
  then obtain k where "y = of_int k" ..
  then have "- y = of_int (- k)" by simp
  then show ?thesis unfolding \<open>y = of_int k\<close> by (metis round_half_even_of_int)
next
  case False
  have fl: "\<lfloor>- y\<rfloor> = - \<lfloor>y\<rfloor> - 1"
    using False by (simp add: floor_minus ceiling_altdef)
  have "of_int \<lfloor>y\<rfloor> \<le> y" by simp
  then have "of_int \<lfloor>y\<rfloor> < y" using False by linarith
  then show ?thesis
    unfolding round_half_even_def Let_def fl by (auto simp: algebra_simps; linarith?)
qed


lemma pow2_add: "(2::rat) powi (a + b) = 2 powi a * 2 powi b"
  by (simp add: power_int_add)

lemma pow2_pos [simp]: "(0::rat) < 2 powi a"
  by simp

lemma rnd64_zero [simp]: "rnd64 0 = 0"
  by (simp add: rnd64_def)

lemma rnd64_minus: "rnd64 (- x) = - rnd64 x"
  by (simp add: rnd64_def Let_def round_half_even_minus)

lemma rnd64_pos_eq:
  assumes "0 < x"
  shows "rnd64 x = of_int (round_half_even (x / 2 powi (max (exponent_of x) (- 1022) - 52)))
                     * 2 powi (max (exponent_of x) (- 1022) - 52)"
  using assms by (simp add: rnd64_def Let_def)

lemma mantissa_less:
  assumes "0 < x"
  shows "x / 2 powi (max (exponent_of x) (- 1022) - 52) < of_int (2 ^ 53)"
proof -
  define E where "E = max (exponent_of x) (- 1022)"
  have "x < 2 powi (exponent_of x + 1)" by (rule exponent_of_bounds[OF assms])
  also have "\<dots> \<le> 2 powi (E + 1)" by (simp add: pow2_le_iff E_def)
  also have "E + 1 = 53 + (E - 52)" by simp
  also have "(2::rat) powi (53 + (E - 52)) = 2 powi 53 * 2 powi (E - 52)" by (rule pow2_add)
  finally have "x / 2 powi (E - 52) < 2 powi 53" by (simp add: pos_divide_less_eq)
  then show ?thesis by (simp add: E_def)
qed

lemma mantissa_ge:
  assumes "0 < x" "- 1022 \<le> exponent_of x"
  shows "of_int (2 ^ 52) \<le> x / 2 powi (max (exponent_of x) (- 1022) - 52)"
proof -
  define e where "e = exponent_of x"
  have E: "max (exponent_of x) (- 1022) = e" using assms(2) by (simp add: e_def)
  have "e = 52 + (e - 52)" by simp
  then have "(2::rat) powi e = 2 powi 52 * 2 powi (e - 52)" by (metis pow2_add)
  moreover have "2 powi e \<le> x" unfolding e_def by (rule exponent_of_bounds[OF assms(1)])
  ultimately have "2 powi 52 \<le> x / 2 powi (e - 52)" by (simp add: pos_le_divide_eq)
  then show ?thesis by (simp add: E)
qed

lemma rnd64_upper:
  assumes "0 < x"
  shows "rnd64 x \<le> 2 powi (max (exponent_of x) (- 1022) + 1)"
proof -
  define E where "E = max (exponent_of x) (- 1022)"
  define k where "k = round_half_even (x / 2 powi (E - 52))"
  have "k \<le> round_half_even (of_int (2 ^ 53))"
    unfolding k_def E_def using mantissa_less[OF assms] by (intro round_half_even_mono) simp
  then have "k \<le> 2 ^ 53" by (simp only: round_half_even_of_int)
  then have "(of_int k :: rat) \<le> of_int (2 ^ 53)" by (simp only: of_int_le_iff)
  then have "(of_int k :: rat) \<le> 2 powi 53" by simp
  then have "of_int k * 2 powi (E - 52) \<le> 2 powi 53 * (2::rat) powi (E - 52)"
    by (intro mult_right_mono) simp_all
  also have "\<dots> = 2 powi (53 + (E - 52))" by (rule pow2_add[symmetric])
  also have "53 + (E - 52) = E + 1" by simp
  finally show ?thesis unfolding rnd64_pos_eq[OF assms] k_def E_def .
qed

lemma rnd64_lower:
  assumes "0 < x" "- 1022 \<le> exponent_of x"
  shows "2 powi exponent_of x \<le> rnd64 x"
proof -
  define e where "e = exponent_of x"
  have E: "max (exponent_of x) (- 1022) = e" using assms(2) by (simp add: e_def)
  define k where "k = round_half_even (x / 2 powi (e - 52))"
  have "round_half_even (of_int (2 ^ 52)) \<le> k"
    unfolding k_def using mantissa_ge[OF assms] by (intro round_half_even_mono) (simp add: E)
  then have "2 ^ 52 \<le> k" by (simp only: round_half_even_of_int)
  then have "(of_int (2 ^ 52) :: rat) \<le> of_int k" by (simp only: of_int_le_iff)
  then have "(2::rat) powi 52 \<le> of_int k" by simp
  then have *: "2 powi 52 * (2::rat) powi (e - 52) \<le> of_int k * 2 powi (e - 52)"
    by (intro mult_right_mono) simp_all
  have "e = 52 + (e - 52)" by simp
  then have "(2::rat) powi e = 2 powi (52 + (e - 52))" by simp
  also have "\<dots> = 2 powi 52 * 2 powi (e - 52)" by (rule pow2_add)
  also note *
  finally show ?thesis unfolding rnd64_pos_eq[OF assms(1)] E k_def e_def .
qed

lemma rnd64_nonneg:
  assumes "0 \<le> x"
  shows "0 \<le> rnd64 x"
proof (cases "x = 0")
  case False
  then have x: "0 < x" using assms by simp
  have "0 \<le> x / 2 powi (max (exponent_of x) (- 1022) - 52)" using x by simp
  then have "round_half_even 0 \<le> round_half_even (x / 2 powi (max (exponent_of x) (- 1022) - 52))"
    by (rule round_half_even_mono)
  moreover have "round_half_even 0 = 0" using round_half_even_of_int[of 0] by simp
  ultimately show ?thesis unfolding rnd64_pos_eq[OF x] by simp
qed simp

lemma rnd64_mono_pos:
  assumes "0 < x" "x \<le> y"
  shows "rnd64 x \<le> rnd64 y"
proof -
  have y: "0 < y" using assms by simp
  define Ex where "Ex = max (exponent_of x) (- 1022)"
  define Ey where "Ey = max (exponent_of y) (- 1022)"
  have le: "Ex \<le> Ey" unfolding Ex_def Ey_def using exponent_of_mono[OF assms] by simp
  show ?thesis
  proof (cases "Ex = Ey")
    case True
    have "x / 2 powi (Ex - 52) \<le> y / 2 powi (Ex - 52)"
      using assms(2) by (simp add: divide_right_mono)
    then have "round_half_even (x / 2 powi (Ex - 52)) \<le> round_half_even (y / 2 powi (Ex - 52))"
      by (rule round_half_even_mono)
    then have "(of_int (round_half_even (x / 2 powi (Ex - 52))) :: rat) * 2 powi (Ex - 52)
          \<le> of_int (round_half_even (y / 2 powi (Ex - 52))) * 2 powi (Ex - 52)"
      by (intro mult_right_mono) simp_all
    then show ?thesis
      unfolding rnd64_pos_eq[OF assms(1)] rnd64_pos_eq[OF y] using True by (simp add: Ex_def Ey_def)
  next
    case False
    then have lt: "Ex + 1 \<le> Ey" using le by simp
    then have ey: "- 1022 \<le> exponent_of y" "Ey = exponent_of y"
      by (auto simp: Ex_def Ey_def)
    have "rnd64 x \<le> 2 powi (Ex + 1)" unfolding Ex_def by (rule rnd64_upper[OF assms(1)])
    also have "\<dots> \<le> 2 powi Ey" using lt by (simp only: pow2_le_iff)
    also have "\<dots> \<le> rnd64 y" unfolding ey(2) by (rule rnd64_lower[OF y ey(1)])
    finally show ?thesis .
  qed
qed

lemma rnd64_mono:
  assumes "x \<le> y"
  shows "rnd64 x \<le> rnd64 y"
proof -
  consider "0 < x" | "x \<le> 0" "0 \<le> y" | "y < 0" by linarith
  then show ?thesis
  proof cases
    case 1
    then show ?thesis using assms by (rule rnd64_mono_pos)
  next
    case 2
    have "rnd64 x = - rnd64 (- x)" using rnd64_minus[of "- x"] by simp
    moreover have "0 \<le> rnd64 (- x)" using 2(1) by (intro rnd64_nonneg) simp
    moreover have "0 \<le> rnd64 y" using 2(2) by (rule rnd64_nonneg)
    ultimately show ?thesis by simp
  next
    case 3
    have "rnd64 (- y) \<le> rnd64 (- x)" using 3 assms by (intro rnd64_mono_pos) simp_all
    then show ?thesis by (simp add: rnd64_minus)
  qed
qed


lemma rnd64_exactI:
  assumes "0 < x" "x = of_int j * 2 powi n" "max (exponent_of x) (- 1022) - 52 \<le> n"
  shows "rnd64 x = x"
proof -
  define E where "E = max (exponent_of x) (- 1022) - 52"
  have n: "n = (n - E) + E" by simp
  have "(2::rat) powi n = 2 powi (n - E) * 2 powi E" by (subst n) (rule pow2_add)
  also have "(2::rat) powi (n - E) = of_int (2 ^ nat (n - E))"
    using assms(3) by (simp add: power_int_nonneg_exp E_def)
  finally have x: "x = of_int (j * 2 ^ nat (n - E)) * 2 powi E"
    using assms(2) by simp
  then have "x / 2 powi E = of_int (j * 2 ^ nat (n - E))" by simp
  then have "round_half_even (x / 2 powi E) = j * 2 ^ nat (n - E)"
    by (simp only: round_half_even_of_int)
  then show ?thesis
    unfolding rnd64_pos_eq[OF assms(1)] E_def[symmetric] using x by simp
qed

lemma rnd64_idem [simp]: "rnd64 (rnd64 x) = rnd64 x"
proof -
  have pos: "rnd64 (rnd64 x) = rnd64 x" if x: "0 < x" for x
  proof (cases "rnd64 x = 0")
    case True
    then show ?thesis by simp
  next
    case False
    define E where "E = max (exponent_of x) (- 1022)"
    define k where "k = round_half_even (x / 2 powi (E - 52))"
    define y where "y = rnd64 x"
    have yk: "y = of_int k * 2 powi (E - 52)"
      unfolding y_def k_def E_def by (rule rnd64_pos_eq[OF x])
    have y: "0 < y" using False rnd64_nonneg[of x] x by (simp add: y_def)
    have up: "y \<le> 2 powi (E + 1)" unfolding y_def E_def by (rule rnd64_upper[OF x])
    have E: "- 1022 \<le> E" by (simp add: E_def)
    show ?thesis
    proof (cases "y = 2 powi (E + 1)")
      case True
      have "exponent_of y = E + 1"
        by (rule exponent_of_unique) (simp_all add: True pow2_less_iff)
      then have "max (exponent_of y) (- 1022) - 52 \<le> E + 1" using E by simp
      moreover have "y = of_int 1 * 2 powi (E + 1)" using True by simp
      ultimately have "rnd64 y = y" using y by (intro rnd64_exactI)
      then show ?thesis by (simp add: y_def)
    next
      case False
      then have "y < 2 powi (E + 1)" using up by simp
      moreover have "2 powi exponent_of y \<le> y" by (rule exponent_of_bounds[OF y])
      ultimately have "(2::rat) powi exponent_of y < 2 powi (E + 1)" by simp
      then have "exponent_of y < E + 1" by (simp only: pow2_less_iff)
      then have "max (exponent_of y) (- 1022) - 52 \<le> E - 52" using E by simp
      then have "rnd64 y = y" using y yk by (intro rnd64_exactI)
      then show ?thesis by (simp add: y_def)
    qed
  qed
  consider "0 < x" | "x = 0" | "x < 0" by linarith
  then show ?thesis
  proof cases
    case 1
    then show ?thesis by (rule pos)
  next
    case 2
    then show ?thesis by simp
  next
    case 3
    then have "rnd64 (rnd64 (- x)) = rnd64 (- x)" by (intro pos) simp
    then show ?thesis by (simp add: rnd64_minus)
  qed
qed

lemma rnd64_of_int:
  assumes "\<bar>k\<bar> \<le> 2 ^ 53"
  shows "rnd64 (of_int k) = of_int k"
proof -
  have pos: "rnd64 (of_int k) = of_int k" if k: "0 < k" "k \<le> 2 ^ 53" for k :: int
  proof -
    define x :: rat where "x = of_int k"
    have x: "0 < x" using k by (simp add: x_def)
    have "x \<le> of_int (2 ^ 53)" unfolding x_def using k(2) by (simp only: of_int_le_iff)
    also have "\<dots> < 2 powi 54" by simp
    finally have "(2::rat) powi exponent_of x < 2 powi 54"
      using exponent_of_bounds(1)[OF x] by simp
    then have "exponent_of x < 54" by (simp only: pow2_less_iff)
    show ?thesis
    proof (cases "k = 2 ^ 53")
      case True
      then have "x = of_int 1 * 2 powi 53" by (simp add: x_def)
      moreover have "max (exponent_of x) (- 1022) - 52 \<le> 53"
        using \<open>exponent_of x < 54\<close> by simp
      ultimately have "rnd64 x = x" using x by (intro rnd64_exactI)
      then show ?thesis by (simp add: x_def)
    next
      case False
      then have "k < 2 ^ 53" using k(2) by simp
      then have "x < of_int (2 ^ 53)" unfolding x_def by (simp only: of_int_less_iff)
      also have "\<dots> = 2 powi 53" by simp
      finally have "(2::rat) powi exponent_of x < 2 powi 53"
        using exponent_of_bounds(1)[OF x] by simp
      then have "exponent_of x < 53" by (simp only: pow2_less_iff)
      then have "max (exponent_of x) (- 1022) - 52 \<le> 0" by simp
      moreover have "x = of_int k * 2 powi 0" by (simp add: x_def)
      ultimately have "rnd64 x = x" using x by (intro rnd64_exactI)
      then show ?thesis by (simp add: x_def)
    qed
  qed
  consider "0 < k" | "k = 0" | "k < 0" by linarith
  then show ?thesis
  proof cases
    case 1
    then show ?thesis using assms by (intro pos) simp_all
  next
    case 2
    then show ?thesis by simp
  next
    case 3
    then have "rnd64 (of_int (- k)) = of_int (- k)" using assms by (intro pos) simp_all
    then show ?thesis by (simp add: rnd64_minus)
  qed
qed

text \<open>Floor and ceiling of a quotient of numerals, for evaluation by the simplifier.\<close>

lemma floor_rat_numeral [simp]:
  "\<lfloor>numeral a / numeral b :: rat\<rfloor> = numeral a div numeral b"
  using floor_divide_of_int_eq[of "numeral a" "numeral b", where 'a = rat] by simp

lemma floor_rat_neg_numeral [simp]:
  "\<lfloor>- (numeral a / numeral b) :: rat\<rfloor> = - numeral a div numeral b"
  using floor_divide_of_int_eq[of "- numeral a" "numeral b", where 'a = rat] by simp

lemma floor_rat_one_numeral [simp]:
  "\<lfloor>1 / numeral b :: rat\<rfloor> = 1 div numeral b"
  using floor_divide_of_int_eq[of 1 "numeral b", where 'a = rat] by simp

lemma ceiling_rat_numeral [simp]:
  "\<lceil>numeral a / numeral b :: rat\<rceil> = - (- numeral a div numeral b)"
  by (simp add: ceiling_def)

text \<open>
  Evaluating \<open>rnd64\<close> at a given rational: name the binade \<open>e\<close> and the rounded
  significand \<open>k\<close>, and check them by arithmetic.
\<close>

lemma rnd64_eqI:
  assumes "0 < x" "2 powi e \<le> x" "x < 2 powi (e + 1)" "- 1022 \<le> e"
    and "round_half_even (x / 2 powi (e - 52)) = k" "y = of_int k * 2 powi (e - 52)"
  shows "rnd64 x = y"
proof -
  have "exponent_of x = e" using assms(2,3) by (rule exponent_of_unique)
  then show ?thesis using assms by (simp add: rnd64_pos_eq)
qed

lemma rnd64_numeral:
  "numeral n \<le> (9007199254740992 :: int) \<Longrightarrow> rnd64 (numeral n) = numeral n"
  using rnd64_of_int[of "numeral n"] by simp

lemma rnd64_one [simp]: "rnd64 1 = 1"
  using rnd64_of_int[of 1] by simp

lemma rnd64_half: "rnd64 (1 / 2) = 1 / 2"
  by (rule rnd64_eqI[where e = "- 1" and k = 4503599627370496]) (simp_all add: round_half_even_def Let_def)

lemma rnd64_three_halves: "rnd64 (3 / 2) = 3 / 2"
  by (rule rnd64_eqI[where e = "0" and k = 6755399441055744]) (simp_all add: round_half_even_def Let_def)

lemma rnd64_third: "rnd64 (1 / 3) = 6004799503160661 / 18014398509481984"
  by (rule rnd64_eqI[where e = "- 2" and k = 6004799503160661]) (simp_all add: round_half_even_def Let_def)

lemma rnd64_ten_to_16: "rnd64 10000000000000000 = 10000000000000000"
  by (rule rnd64_eqI[where e = "53" and k = 5000000000000000]) (simp_all add: round_half_even_def Let_def)

lemma rnd64_ten_to_16_plus_1: "rnd64 10000000000000001 = 10000000000000000"
  by (rule rnd64_eqI[where e = "53" and k = 5000000000000000]) (simp_all add: round_half_even_def Let_def)

lemma rnd64_fraction_95: "rnd64 (19 / 20) = 4278419646001971 / 4503599627370496"
  by (rule rnd64_eqI[where e = "- 1" and k = 8556839292003942]) (simp_all add: round_half_even_def Let_def)

lemma rnd64_neg_numeral:
  "numeral n \<le> (9007199254740992 :: int) \<Longrightarrow> rnd64 (- numeral n) = - numeral n"
  using rnd64_of_int[of "- numeral n"] by simp

section \<open>utils.ts: percentile and mean\<close>

lemma sort_eq_Nil_iff: "sort xs = [] \<longleftrightarrow> xs = []"
  using length_sort[of "\<lambda>x. x" xs] by (metis length_0_conv)

lemma percentile_in_fst:
  "fst (percentile_in h vals fraction) =
     (if h ! vals = [] then 0
      else let n = int (length (h ! vals));
               index = min (n - 1) (max 0 (Math_ceil (js_mul (of_int n) fraction) - 1))
           in sort (h ! vals) ! nat index)"
  by (auto simp: percentile_in_def Let_def nth_append sort_eq_Nil_iff)

lemma percentile_in_snd:
  "take (length h) (snd (percentile_in h vals fraction)) = h"
  by (simp add: percentile_in_def Let_def)

lemma percentile_eq:
  "percentile values fraction =
     (if values = [] then 0
      else let n = int (length values);
               index = min (n - 1) (max 0 (Math_ceil (js_mul (of_int n) fraction) - 1))
           in sort values ! nat index)"
  unfolding percentile_def percentile_in_fst by simp

lemma sorted_nth_last_Max:
  assumes "sorted ys" "ys \<noteq> []"
  shows "ys ! (length ys - 1) = Max (set ys)"
proof (rule Max_eqI[symmetric])
  show "finite (set ys)" by simp
  show "ys ! (length ys - 1) \<in> set ys" using assms(2) by simp
  fix y assume "y \<in> set ys"
  then obtain i where i: "i < length ys" "y = ys ! i" by (auto simp: in_set_conv_nth)
  then show "y \<le> ys ! (length ys - 1)"
    using assms by (auto intro!: sorted_nth_mono)
qed

lemma sorted_nth_0_Min:
  assumes "sorted ys" "ys \<noteq> []"
  shows "ys ! 0 = Min (set ys)"
proof (rule Min_eqI[symmetric])
  show "finite (set ys)" by simp
  show "ys ! 0 \<in> set ys" using assms(2) by simp
  fix y assume "y \<in> set ys"
  then obtain i where i: "i < length ys" "y = ys ! i" by (auto simp: in_set_conv_nth)
  then show "ys ! 0 \<le> y"
    using assms by (auto intro!: sorted_nth_mono)
qed

lemma sort_nth_last_Max:
  assumes "xs \<noteq> []"
  shows "sort xs ! (length xs - 1) = Max (set xs)"
  using sorted_nth_last_Max[of "sort xs"] assms by (simp add: sort_eq_Nil_iff)

lemma sort_nth_0_Min:
  assumes "xs \<noteq> []"
  shows "sort xs ! 0 = Min (set xs)"
  using sorted_nth_0_Min[of "sort xs"] assms by (simp add: sort_eq_Nil_iff)

lemma rnd64_of_nat:
  assumes "n \<le> 2 ^ 53"
  shows "rnd64 (of_nat n) = of_nat n"
proof -
  from assms have "int n \<le> int (2 ^ 53)" by (rule iffD2[OF of_nat_le_iff])
  then have "\<bar>int n\<bar> \<le> 2 ^ 53" by simp
  then have "rnd64 (of_int (int n)) = of_int (int n)" by (rule rnd64_of_int)
  then show ?thesis by simp
qed

text \<open>
  Claim C4.  \<open>percentile\<close> of the empty array is 0.  Of a non-empty array at address
  \<open>vals\<close> of the store it is the element of the ascending sort at the index
  \<open>ceil (length * fraction) - 1\<close> clamped into \<open>[0, length - 1]\<close>, the product being the
  source's rounding multiplication: the nearest rank, no interpolation.  The sort writes
  to the fresh copy: every array the store held before the call, the argument among
  them, is as it was.
\<close>

theorem percentile_nearest_rank:
  "percentile [] fraction = 0 \<and>
   (h ! vals \<noteq> [] \<longrightarrow>
      (let n = int (length (h ! vals));
           index = min (n - 1) (max 0 (Math_ceil (js_mul (of_int n) fraction) - 1))
       in 0 \<le> index \<and> index < n \<and>
          fst (percentile_in h vals fraction) = sort (h ! vals) ! nat index \<and>
          sorted (sort (h ! vals)) \<and> mset (sort (h ! vals)) = mset (h ! vals) \<and>
          take (length h) (snd (percentile_in h vals fraction)) = h \<and>
          percentile (h ! vals) fraction = fst (percentile_in h vals fraction)))"
proof (intro conjI impI)
  show "percentile [] fraction = 0" by (simp add: percentile_eq)
next
  assume ne: "h ! vals \<noteq> []"
  define n where "n = int (length (h ! vals))"
  define index where "index = min (n - 1) (max 0 (Math_ceil (js_mul (of_int n) fraction) - 1))"
  have n: "0 < n" using ne by (simp add: n_def)
  have 1: "0 \<le> index" "index < n" using n by (simp_all add: index_def)
  have 2: "fst (percentile_in h vals fraction) = sort (h ! vals) ! nat index"
    using ne by (simp add: percentile_in_fst Let_def index_def n_def)
  have 3: "percentile (h ! vals) fraction = fst (percentile_in h vals fraction)"
    by (simp add: percentile_eq percentile_in_fst)
  show "let n = int (length (h ! vals));
           index = min (n - 1) (max 0 (Math_ceil (js_mul (of_int n) fraction) - 1))
       in 0 \<le> index \<and> index < n \<and>
          fst (percentile_in h vals fraction) = sort (h ! vals) ! nat index \<and>
          sorted (sort (h ! vals)) \<and> mset (sort (h ! vals)) = mset (h ! vals) \<and>
          take (length h) (snd (percentile_in h vals fraction)) = h \<and>
          percentile (h ! vals) fraction = fst (percentile_in h vals fraction)"
    unfolding Let_def n_def[symmetric] index_def[symmetric]
    using 1 2 3 by (simp add: percentile_in_snd)
qed

theorem percentile_nearest_rank_witness:
  "[[3, 1, 2]] ! 0 \<noteq> ([] :: number list) \<and>
   fst (percentile_in [[3, 1, 2]] 0 (1 / 2)) = 2 \<and>
   take 1 (snd (percentile_in [[3, 1, 2]] 0 (1 / 2))) = [[3, 1, 2]]"
proof -
  have ne: "[[3, 1, 2]] ! 0 \<noteq> ([] :: number list)" by simp
  have idx: "min (3 - 1) (max 0 (Math_ceil (js_mul (of_int 3) (1 / 2)) - 1)) = 1"
    by (simp add: js_mul_def rnd64_three_halves Math_ceil_def)
  show ?thesis
    using ne idx percentile_nearest_rank[of "1 / 2" "[[3, 1, 2]]" 0] by (simp add: Let_def)
qed

text \<open>
  Claim C5.  \<open>percentile [] f = 0\<close> for every \<open>f\<close>; for a non-empty \<open>xs\<close>,
  \<open>percentile xs 0\<close> is the smallest element (the index clamps to 0) and
  \<open>percentile xs 1\<close> is the largest.  An array has fewer than \<open>2 ^ 32\<close> elements, so its
  length is a binary64 value and \<open>length * 1\<close> is exact.
\<close>

theorem percentile_extremes:
  "percentile [] f = 0 \<and>
   (xs \<noteq> [] \<longrightarrow> percentile xs 0 = Min (set xs)) \<and>
   (xs \<noteq> [] \<and> length xs \<le> 2 ^ 53 \<longrightarrow> percentile xs 1 = Max (set xs))"
proof (intro conjI impI)
  show "percentile [] f = 0" by (simp add: percentile_eq)
next
  assume "xs \<noteq> []"
  moreover have "js_mul (of_nat (length xs)) 0 = 0" by (simp add: js_mul_def)
  ultimately show "percentile xs 0 = Min (set xs)"
    by (simp add: percentile_eq Let_def Math_ceil_def sort_nth_0_Min)
next
  assume a: "xs \<noteq> [] \<and> length xs \<le> 2 ^ 53"
  then have "js_mul (of_nat (length xs)) 1 = of_nat (length xs)"
    by (simp add: js_mul_def rnd64_of_nat)
  moreover have "nat (int (length xs) - 1) = length xs - 1" by simp
  ultimately show "percentile xs 1 = Max (set xs)"
    using a sort_nth_last_Max[of xs] by (simp add: percentile_eq Let_def Math_ceil_def)
qed

theorem percentile_extremes_witness:
  "[3, 1, 2] \<noteq> ([] :: number list) \<and> length [3, 1, 2 :: number] \<le> 2 ^ 53 \<and>
   percentile [3, 1, 2] 0 = 1 \<and> percentile [3, 1, 2] 1 = 3"
  using percentile_extremes[of 0 "[3, 1, 2]"] by simp

text \<open>
  The running sum of \<open>mean\<close> is exact as long as it stays an integer of magnitude at most
  \<open>2 ^ 53\<close>.
\<close>

lemma foldl_js_add_int:
  "\<bar>acc\<bar> + (\<Sum>k\<leftarrow>ks. \<bar>k\<bar>) \<le> 2 ^ 53 \<Longrightarrow>
   foldl (\<lambda>sum v. js_add sum v) (of_int acc) (map of_int ks) = of_int (acc + sum_list ks)"
proof (induction ks arbitrary: acc)
  case Nil
  then show ?case by simp
next
  case (Cons k ks)
  have nn: "0 \<le> (\<Sum>k\<leftarrow>ks. \<bar>k\<bar>)" by (rule sum_list_nonneg) auto
  have "\<bar>acc + k\<bar> \<le> 2 ^ 53" using Cons.prems nn by simp
  then have "rnd64 (of_int (acc + k)) = of_int (acc + k)" by (rule rnd64_of_int)
  then have step: "js_add (of_int acc) (of_int k) = of_int (acc + k)" by (simp add: js_add_def)
  have "\<bar>acc + k\<bar> + (\<Sum>k\<leftarrow>ks. \<bar>k\<bar>) \<le> 2 ^ 53" using Cons.prems by simp
  from Cons.IH[OF this] show ?case by (simp add: step add.assoc)
qed

lemma mean_of_int:
  assumes "(\<Sum>k\<leftarrow>ks. \<bar>k\<bar>) \<le> 2 ^ 53"
  shows "mean (map of_int ks) =
           (if ks = [] then 0 else js_div (of_int (sum_list ks)) (of_nat (length ks)))"
  using foldl_js_add_int[of 0 ks] assms by (simp add: mean_def)

text \<open>
  Claim C7, as amended.  \<open>mean [] = 0\<close>, and \<open>mean [a] = a\<close> for every binary64 value \<open>a\<close>.
  The sum is a left fold of a rounding addition, so the order of the input can change the
  result, as the counterexample after this theorem shows.  Two orders of the same values
  have the same mean whenever the running sum is exact in both of them, that is, in each
  order the sum that \<open>mean\<close> computes is the exact sum of the values.  Integer values whose
  magnitudes sum to at most \<open>2 ^ 53\<close> (byte counts, for one) are summed exactly in every
  order, so every permutation of such an input has the same mean.
\<close>

theorem mean_properties:
  "mean [] = 0 \<and>
   (rnd64 a = a \<longrightarrow> mean [a] = a) \<and>
   (mset xs = mset ys \<and>
    foldl (\<lambda>sum v. js_add sum v) 0 xs = sum_list xs \<and>
    foldl (\<lambda>sum v. js_add sum v) 0 ys = sum_list ys \<longrightarrow> mean xs = mean ys) \<and>
   (mset ks = mset ks' \<and> (\<Sum>k\<leftarrow>ks. \<bar>k\<bar>) \<le> 2 ^ 53 \<longrightarrow>
      mean (map of_int ks) = mean (map of_int ks'))"
proof (intro conjI impI)
  show "mean [] = 0" by (simp add: mean_def)
next
  assume "rnd64 a = a"
  then show "mean [a] = a" by (simp add: mean_def js_add_def js_div_def)
next
  assume a: "mset xs = mset ys \<and>
    foldl (\<lambda>sum v. js_add sum v) 0 xs = sum_list xs \<and>
    foldl (\<lambda>sum v. js_add sum v) 0 ys = sum_list ys"
  then have s: "sum_list xs = sum_list ys" by (metis sum_mset_sum_list)
  have l: "length xs = length ys" using a by (metis size_mset)
  show "mean xs = mean ys"
    using a by (simp add: mean_def s l)
next
  assume a: "mset ks = mset ks' \<and> (\<Sum>k\<leftarrow>ks. \<bar>k\<bar>) \<le> 2 ^ 53"
  then have "mset (map abs ks) = mset (map abs ks')" by simp
  then have "sum_list (map abs ks) = sum_list (map abs ks')" by (metis sum_mset_sum_list)
  then have b: "(\<Sum>k\<leftarrow>ks'. \<bar>k\<bar>) \<le> 2 ^ 53" using a by simp
  have s: "sum_list ks = sum_list ks'" using a by (metis sum_mset_sum_list)
  have l: "length ks = length ks'" using a by (metis size_mset)
  have e: "ks = [] \<longleftrightarrow> ks' = []" using l by auto
  show "mean (map of_int ks) = mean (map of_int ks')"
    using a b by (simp add: mean_of_int s l e)
qed

theorem mean_properties_witness:
  "rnd64 (1 / 2) = 1 / 2 \<and> mean [1 / 2] = 1 / 2 \<and>
   mset [1 / 2, 1 :: number] = mset [1, 1 / 2] \<and>
   foldl (\<lambda>sum v. js_add sum v) 0 [1 / 2, 1] = sum_list [1 / 2, 1] \<and>
   foldl (\<lambda>sum v. js_add sum v) 0 [1, 1 / 2] = sum_list [1, 1 / 2] \<and>
   mean [1 / 2, 1] = mean [1, 1 / 2] \<and>
   mset [3, 1, 2 :: int] = mset [1, 2, 3] \<and> (\<Sum>k\<leftarrow>[3, 1, 2 :: int]. \<bar>k\<bar>) \<le> 2 ^ 53 \<and>
   mean (map of_int [3, 1, 2 :: int]) = mean (map of_int [1, 2, 3 :: int])"
proof -
  have r: "rnd64 (1 / 2) = 1 / 2" by (rule rnd64_half)
  have x: "mset [1 / 2, 1 :: number] = mset [1, 1 / 2]" by simp
  have f: "foldl (\<lambda>sum v. js_add sum v) 0 [1 / 2, 1] = sum_list [1 / 2, 1]"
    "foldl (\<lambda>sum v. js_add sum v) 0 [1, 1 / 2] = sum_list [1, 1 / 2]"
    by (simp_all add: js_add_def rnd64_half rnd64_three_halves)
  have m: "mset [3, 1, 2 :: int] = mset [1, 2, 3]" by simp
  have b: "(\<Sum>k\<leftarrow>[3, 1, 2 :: int]. \<bar>k\<bar>) \<le> 2 ^ 53" by simp
  note t = mean_properties[of "1 / 2" "[1 / 2, 1]" "[1, 1 / 2]" "[3, 1, 2]" "[1, 2, 3]"]
  have 1: "mean [1 / 2] = (1 / 2 :: number)"
    using t r by blast
  have 2: "mean [1 / 2, 1] = mean [1, 1 / 2]"
    using t x f by blast
  have 3: "mean (map of_int [3, 1, 2 :: int]) = mean (map of_int [1, 2, 3 :: int])"
    using t m b by blast
  show ?thesis using r x f m b 1 2 3 by blast
qed

text \<open>
  The claim C7 as stated fails: \<open>10 ^ 16\<close>, \<open>1\<close> and \<open>- 10 ^ 16\<close> are binary64 values;
  summed in this order the \<open>1\<close> is rounded away (\<open>10 ^ 16 + 1\<close> is not a binary64 value)
  and the mean is 0, summed in the order \<open>10 ^ 16\<close>, \<open>- 10 ^ 16\<close>, \<open>1\<close> it is the binary64
  value nearest to \<open>1 / 3\<close>.
\<close>

theorem mean_order_counterexample:
  "mset [10000000000000000, 1, - 10000000000000000 :: number]
     = mset [10000000000000000, - 10000000000000000, 1] \<and>
   rnd64 10000000000000000 = 10000000000000000 \<and>
   mean [10000000000000000, 1, - 10000000000000000] = 0 \<and>
   mean [10000000000000000, - 10000000000000000, 1] = 6004799503160661 / 18014398509481984"
proof -
  have 1: "mset [10000000000000000, 1, - 10000000000000000 :: number]
     = mset [10000000000000000, - 10000000000000000, 1]" by simp
  have 2: "rnd64 10000000000000000 = 10000000000000000" by (rule rnd64_ten_to_16)
  have 3: "mean [10000000000000000, 1, - 10000000000000000] = 0"
    by (simp add: mean_def js_add_def js_div_def rnd64_ten_to_16 rnd64_ten_to_16_plus_1)
  have 4: "mean [10000000000000000, - 10000000000000000, 1] = 6004799503160661 / 18014398509481984"
    by (simp add: mean_def js_add_def js_div_def rnd64_ten_to_16 rnd64_third)
  show ?thesis using 1 2 3 4 by blast
qed

section \<open>index.ts: one case\<close>

lemma Math_max_eq: "xs \<noteq> [] \<Longrightarrow> Math_max xs = Max (set xs)"
proof (cases xs)
  case (Cons a list)
  then show ?thesis using Max.set_eq_fold[of a list] by simp
qed simp

lemma Math_min_eq: "xs \<noteq> [] \<Longrightarrow> Math_min xs = Min (set xs)"
proof (cases xs)
  case (Cons a list)
  then show ?thesis using Min.set_eq_fold[of a list] by simp
qed simp

lemma Math_round_mono: "x \<le> y \<Longrightarrow> Math_round x \<le> Math_round y"
  by (simp add: Math_round_def floor_mono)

lemma round_digits_mono:
  assumes "x \<le> y"
  shows "round_digits x d \<le> round_digits y d"
proof -
  have "x * 10 ^ d \<le> y * 10 ^ d" using assms by (simp add: mult_right_mono)
  then have "js_mul x (10 ^ d) \<le> js_mul y (10 ^ d)"
    unfolding js_mul_def by (rule rnd64_mono)
  then have "Math_round (js_mul x (10 ^ d)) \<le> Math_round (js_mul y (10 ^ d))"
    by (rule Math_round_mono)
  then have "Math_round (js_mul x (10 ^ d)) / 10 ^ d \<le> Math_round (js_mul y (10 ^ d)) / 10 ^ d"
    by (simp add: divide_right_mono)
  then show ?thesis
    unfolding round_digits_def Let_def js_div_def by (rule rnd64_mono)
qed

lemma round_digits_zero [simp]: "round_digits 0 d = 0"
  by (simp add: round_digits_def js_mul_def js_div_def Math_round_def)

lemma round_digits_nonneg: "0 \<le> x \<Longrightarrow> 0 \<le> round_digits x d"
  using round_digits_mono[of 0 x d] by simp

lemma formatMb_nonneg: "0 \<le> x \<Longrightarrow> 0 \<le> formatMb x"
  unfolding formatMb_def js_div_def by (intro rnd64_nonneg) simp

lemma js_sub_nonneg: "b \<le> a \<Longrightarrow> 0 \<le> js_sub a b"
  unfolding js_sub_def by (intro rnd64_nonneg) simp

text \<open>
  What holds of the locals before the measured loop and is kept by every iteration holds
  when the loop has completed.
\<close>

lemma measure_loop_invariant:
  assumes "measure_loop h renderer task save n m w = (Inr m', w')"
    and "P m"
    and "\<And>start out end memory m. P m \<Longrightarrow> P (measure_step save start out end memory m)"
  shows "P m'"
  using assms(1,2)
proof (induction n arbitrary: m w)
  case 0
  then show ?case by simp
next
  case (Suc n)
  obtain start w1 where a: "performance_now h w = (start, w1)" by (cases "performance_now h w")
  obtain res w2 where b: "run renderer task w1 = (res, w2)" by (cases "run renderer task w1")
  obtain "end" w3 where c: "performance_now h w2 = (end, w3)" by (cases "performance_now h w2")
  obtain memory w4 where d: "memoryUsage h w3 = (memory, w4)" by (cases "memoryUsage h w3")
  show ?case
  proof (cases res)
    case (Inl e)
    then show ?thesis using Suc.prems(1) a b by simp
  next
    case (Inr out)
    then have "measure_loop h renderer task save n (measure_step save start out end memory m) w4
                = (Inr m', w')"
      using Suc.prems(1) a b c d by simp
    moreover have "P (measure_step save start out end memory m)"
      using Suc.prems(2) by (rule assms(3))
    ultimately show ?thesis by (rule Suc.IH)
  qed
qed

lemma measure_loop_length:
  assumes "measure_loop h renderer task save n m w = (Inr m', w')"
  shows "length (times_ms m') = length (times_ms m) + n"
  using assms
proof (induction n arbitrary: m w)
  case 0
  then show ?case by simp
next
  case (Suc n)
  obtain start w1 where a: "performance_now h w = (start, w1)" by (cases "performance_now h w")
  obtain res w2 where b: "run renderer task w1 = (res, w2)" by (cases "run renderer task w1")
  obtain "end" w3 where c: "performance_now h w2 = (end, w3)" by (cases "performance_now h w2")
  obtain memory w4 where d: "memoryUsage h w3 = (memory, w4)" by (cases "memoryUsage h w3")
  show ?case
  proof (cases res)
    case (Inl e)
    then show ?thesis using Suc.prems(1) a b by simp
  next
    case (Inr out)
    then have "measure_loop h renderer task save n (measure_step save start out end memory m) w4
                = (Inr m', w')"
      using Suc.prems(1) a b c d by simp
    from Suc.IH[OF this] show ?thesis by (simp add: measure_step_def)
  qed
qed

text \<open>
  A case that completes went through its warmup, took its baseline, completed its
  measured loop from the initial locals, and returns the statistics of the locals the
  loop ended with.
\<close>

lemma runCase_InrE:
  assumes "runCase task renderer options h w = (Inr (st, smp), w')"
  obtains w1 baseline w2 m w3 ending where
    "warmup_loop renderer task (warmup options) w = (None, w1)"
    "memoryUsage h (call_gc h w1) = (baseline, w2)"
    "measure_loop h renderer task (saveImages options) (iterations options)
       (initial_measured baseline) w2 = (Inr m, w3)"
    "memoryUsage h (call_gc h w3) = (ending, w')"
    "st = case_stats renderer task options baseline m ending"
    "smp = sample m"
  using assms unfolding runCase_def Let_def
  by (auto split: prod.splits option.splits sum.splits)

lemma times_are_doubles:
  assumes "measure_loop h renderer task save n m w = (Inr m', w')"
    and "\<forall>t\<in>set (times_ms m). rnd64 t = t"
  shows "\<forall>t\<in>set (times_ms m'). rnd64 t = t"
  using assms(1,2)
  by (rule measure_loop_invariant) (simp add: measure_step_def js_sub_def)

lemma peaks_above_baseline:
  assumes "measure_loop h renderer task save n m w = (Inr m', w')"
    and "r \<le> rssPeak m \<and> hp \<le> heapPeak m"
  shows "r \<le> rssPeak m' \<and> hp \<le> heapPeak m'"
  using assms(1,2)
  by (rule measure_loop_invariant) (simp add: measure_step_def max.coboundedI1)

lemma unit_follows_kind:
  assumes "measure_loop h renderer task save n m w = (Inr m', w')"
    and "cur_outputUnit m = Bytes \<longleftrightarrow> cur_outputKind m = KImage"
  shows "cur_outputUnit m' = Bytes \<longleftrightarrow> cur_outputKind m' = KImage"
  using assms(1,2)
  by (rule measure_loop_invariant) (simp add: measure_step_def)

lemma sum_list_ge_const:
  fixes a :: rat
  shows "\<forall>x\<in>set xs. a \<le> x \<Longrightarrow> of_nat (length xs) * a \<le> sum_list xs"
  by (induction xs) (auto simp: algebra_simps)

lemma sum_list_le_const:
  fixes a :: rat
  shows "\<forall>x\<in>set xs. x \<le> a \<Longrightarrow> sum_list xs \<le> of_nat (length xs) * a"
  by (induction xs) (auto simp: algebra_simps)

text \<open>
  When the running sum is exact, the mean of binary64 values is the rounding of their
  exact mean, and lies between the least and the greatest of them.
\<close>

lemma mean_exact_between:
  assumes "ts \<noteq> []" "\<forall>t\<in>set ts. rnd64 t = t"
    and "foldl (\<lambda>sum v. js_add sum v) 0 ts = sum_list ts"
  shows "Min (set ts) \<le> mean ts" "mean ts \<le> Max (set ts)"
proof -
  define n :: rat where "n = of_nat (length ts)"
  have n: "0 < n" using assms(1) by (simp add: n_def)
  have m: "mean ts = rnd64 (sum_list ts / n)"
    using assms(1,3) by (simp add: mean_def js_div_def n_def)
  have "n * Min (set ts) \<le> sum_list ts"
    unfolding n_def by (rule sum_list_ge_const) simp
  then have "Min (set ts) \<le> sum_list ts / n" using n by (simp add: pos_le_divide_eq mult.commute)
  then have "rnd64 (Min (set ts)) \<le> rnd64 (sum_list ts / n)" by (rule rnd64_mono)
  moreover have "Min (set ts) \<in> set ts" using assms(1) by (intro Min_in) simp_all
  ultimately show "Min (set ts) \<le> mean ts" using assms(2) m by simp
  have "sum_list ts \<le> n * Max (set ts)"
    unfolding n_def by (rule sum_list_le_const) simp
  then have "sum_list ts / n \<le> Max (set ts)" using n by (simp add: pos_divide_le_eq mult.commute)
  then have "rnd64 (sum_list ts / n) \<le> rnd64 (Max (set ts))" by (rule rnd64_mono)
  moreover have "Max (set ts) \<in> set ts" using assms(1) by (intro Max_in) simp_all
  ultimately show "mean ts \<le> Max (set ts)" using assms(2) m by simp
qed

lemma percentile_mem:
  assumes "xs \<noteq> []"
  shows "percentile xs f \<in> set xs"
proof -
  define index where
    "index = min (int (length xs) - 1) (max 0 (Math_ceil (js_mul (of_int (int (length xs))) f) - 1))"
  have "0 \<le> index" "index < int (length xs)" using assms by (simp_all add: index_def)
  then have "nat index < length (sort xs)" by simp
  then have "sort xs ! nat index \<in> set (sort xs)" by (rule nth_mem)
  then show ?thesis using assms by (simp add: percentile_eq Let_def index_def)
qed

text \<open>The two fixture runs, evaluated.\<close>

lemma fake_metric_run: "run fake_metric task w = (Inr (Metric 100), w)"
  by (simp add: fake_metric_def)

lemma example_host_baseline:
  "memoryUsage example_host (call_gc example_host [a, b, c, d, e, f])
     = (\<lparr>rss = 98566144, heapUsed = 55574528\<rparr>, [a, b, c, d, e, f])"
  by (simp add: example_host_def call_gc_def)

lemma example_host_ending:
  "memoryUsage example_host (call_gc example_host []) = (\<lparr>rss = 104857600, heapUsed = 52428800\<rparr>, [])"
  by (simp add: example_host_def call_gc_def)

lemma example_measure_loop:
  "measure_loop example_host fake_metric ''text-layout'' False 3
     (initial_measured \<lparr>rss = 98566144, heapUsed = 55574528\<rparr>) example_clock
   = (Inr example_measured, [])"
  by (simp add: eval_nat_numeral example_host_def fake_metric_run example_clock_def
        measure_step_def initial_measured_def example_measured_def js_sub_def rnd64_numeral)

lemma rnd64_slow_latency: "rnd64 (3523438337522139 / 1099511627776) = 3523438337522139 / 1099511627776"
  by (rule rnd64_eqI[where e = "11" and k = 7046876675044278]) (simp_all add: round_half_even_def Let_def)

lemma rnd64_slow_sum_2: "rnd64 (3523438337522139 / 549755813888) = 3523438337522139 / 549755813888"
  by (rule rnd64_eqI[where e = "12" and k = 7046876675044278]) (simp_all add: round_half_even_def Let_def)

lemma rnd64_slow_sum_3: "rnd64 (10570315012566417 / 1099511627776) = 660644688285401 / 68719476736"
  by (rule rnd64_eqI[where e = "13" and k = 5285157506283208]) (simp_all add: round_half_even_def Let_def)

lemma rnd64_slow_mean: "rnd64 (660644688285401 / 206158430208) = 7046876675044277 / 2199023255552"
  by (rule rnd64_eqI[where e = "11" and k = 7046876675044277]) (simp_all add: round_half_even_def Let_def)

lemma rnd64_slow_mean_scaled: "rnd64 (880859584380534625 / 274877906944) = 6881715502972927 / 2147483648"
  by (rule rnd64_eqI[where e = "21" and k = 6881715502972927]) (simp_all add: round_half_even_def Let_def)

lemma rnd64_slow_avg: "rnd64 (801137 / 250) = 3523437787766325 / 1099511627776"
  by (rule rnd64_eqI[where e = "11" and k = 7046875575532650]) (simp_all add: round_half_even_def Let_def)

lemma rnd64_slow_latency_scaled: "rnd64 (440429792190267375 / 137438953472) = 6409097 / 2"
  by (rule rnd64_eqI[where e = "21" and k = 6881715502972928]) (simp_all add: round_half_even_def Let_def)

lemma rnd64_slow_min: "rnd64 (3204549 / 1000) = 3523438887277953 / 1099511627776"
  by (rule rnd64_eqI[where e = "11" and k = 7046877774555906]) (simp_all add: round_half_even_def Let_def)

lemma rnd64_three_times_95: "rnd64 (12835258938005913 / 4503599627370496) = 1604407367250739 / 562949953421312"
  by (rule rnd64_eqI[where e = "1" and k = 6417629469002956]) (simp_all add: round_half_even_def Let_def)

lemma slow_measure_loop:
  "measure_loop example_host fake_metric ''text-layout'' False 3
     (initial_measured \<lparr>rss = 98566144, heapUsed = 55574528\<rparr>) slow_clock
   = (Inr slow_measured, [])"
  by (simp add: eval_nat_numeral example_host_def fake_metric_run slow_clock_def
        measure_step_def initial_measured_def slow_measured_def js_sub_def rnd64_slow_latency)

lemma memory_deltas:
  "round_digits (formatMb (js_sub 104857600 98566144)) 3 = 6"
  "round_digits (formatMb (js_sub 55574528 55574528)) 3 = 0"
  "round_digits (formatMb (js_sub 52428800 55574528)) 3 = - 3"
  "round_digits (mean [100, 100, 100]) 3 = 100"
  by (simp_all add: round_digits_def formatMb_def js_sub_def js_div_def js_mul_def js_add_def
        mean_def Math_round_def rnd64_numeral rnd64_neg_numeral)

lemma example_latency_stats:
  "round_digits (mean [2, 3, 4]) 3 = 3"
  "percentile [2, 3, 4] (rnd64 (19 / 20)) = 4"
  "round_digits 2 3 = 2"
  "round_digits 4 3 = 4"
  by (simp_all add: round_digits_def js_div_def js_mul_def js_add_def mean_def Math_round_def
        percentile_eq Let_def Math_ceil_def rnd64_numeral rnd64_fraction_95 rnd64_three_times_95)

lemma slow_latency_stats:
  "round_digits (mean [3523438337522139 / 1099511627776, 3523438337522139 / 1099511627776,
                       3523438337522139 / 1099511627776]) 3
     = 3523437787766325 / 1099511627776"
  "percentile [3523438337522139 / 1099511627776, 3523438337522139 / 1099511627776,
               3523438337522139 / 1099511627776] (rnd64 (19 / 20))
     = 3523438337522139 / 1099511627776"
  "round_digits (3523438337522139 / 1099511627776) 3 = 3523438887277953 / 1099511627776"
  by (simp_all add: round_digits_def js_div_def js_mul_def js_add_def mean_def Math_round_def
        percentile_eq Let_def Math_ceil_def rnd64_numeral rnd64_fraction_95 rnd64_three_times_95
        rnd64_slow_latency rnd64_slow_sum_2 rnd64_slow_sum_3 rnd64_slow_mean
        rnd64_slow_mean_scaled rnd64_slow_avg rnd64_slow_latency_scaled rnd64_slow_min)

lemma example_options_fields:
  "saveImages example_options = False" "iterations example_options = 3"
  "warmup example_options = 1" "name fake_metric = ''fake-metric''"
  by (simp_all add: example_options_def fake_metric_def)

lemma example_runCase:
  "runCase ''text-layout'' fake_metric example_options example_host example_clock
     = (Inr (example_case_stats, None), [])"
proof -
  have b: "memoryUsage example_host (call_gc example_host example_clock)
             = (\<lparr>rss = 98566144, heapUsed = 55574528\<rparr>, example_clock)"
    unfolding example_clock_def by (rule example_host_baseline)
  show ?thesis
    by (simp add: runCase_def fake_metric_run b example_host_ending example_options_fields
          example_measure_loop case_stats_def example_measured_def example_latency_stats
          memory_deltas example_case_stats_def)
qed

lemma slow_runCase:
  "runCase ''text-layout'' fake_metric example_options example_host slow_clock
     = (Inr (slow_case_stats, None), [])"
proof -
  have b: "memoryUsage example_host (call_gc example_host slow_clock)
             = (\<lparr>rss = 98566144, heapUsed = 55574528\<rparr>, slow_clock)"
    unfolding slow_clock_def by (rule example_host_baseline)
  show ?thesis
    by (simp add: runCase_def fake_metric_run b example_host_ending example_options_fields
          slow_measure_loop case_stats_def slow_measured_def slow_latency_stats
          memory_deltas slow_case_stats_def)
qed

text \<open>
  Claim C3, as amended.  When the measured loop of \<open>n \<ge> 1\<close> iterations completes, the
  latency sequence has exactly \<open>n\<close> entries, and the statistics assembled from it (which
  \<open>runCase\<close> returns, \<open>runCase_InrE\<close>) satisfy \<open>minMs \<le> p95Ms \<le> maxMs\<close>: the three are
  elements of the sequence rounded by the same monotone \<open>round_digits\<close>.  The average lies
  between \<open>minMs\<close> and \<open>maxMs\<close> when the running sum of the latencies is exact; when an
  addition rounds, the mean can leave the range by a unit in the last place and be rounded
  to another third decimal, as the counterexample after this theorem shows.
\<close>

theorem case_latency_statistics:
  assumes "measure_loop h renderer task save n m0 w = (Inr m, w')"
    and "times_ms m0 = []" and "0 < n"
  shows "length (times_ms m) = n \<and>
         (let st = case_stats renderer task options baseline m ending
          in minMs st \<le> p95Ms st \<and> p95Ms st \<le> maxMs st \<and>
             (foldl (\<lambda>sum v. js_add sum v) 0 (times_ms m) = sum_list (times_ms m) \<longrightarrow>
                minMs st \<le> avgMs st \<and> avgMs st \<le> maxMs st))"
proof -
  define ts where "ts = times_ms m"
  have len: "length ts = n"
    using measure_loop_length[OF assms(1)] assms(2) by (simp add: ts_def)
  then have ne: "ts \<noteq> []" using assms(3) by auto
  have dbl: "\<forall>t\<in>set ts. rnd64 t = t"
    unfolding ts_def by (rule times_are_doubles[OF assms(1)]) (simp add: assms(2))
  have mn: "Math_min ts = Min (set ts)" and mx: "Math_max ts = Max (set ts)"
    using ne by (simp_all add: Math_min_eq Math_max_eq)
  have p: "percentile ts (rnd64 (95 / 100)) \<in> set ts" using ne by (rule percentile_mem)
  have 1: "round_digits (Math_min ts) 3 \<le> round_digits (percentile ts (rnd64 (95 / 100))) 3"
    using p by (simp add: mn round_digits_mono)
  have 2: "round_digits (percentile ts (rnd64 (95 / 100))) 3 \<le> round_digits (Math_max ts) 3"
    using p by (simp add: mx round_digits_mono)
  have 3: "round_digits (Math_min ts) 3 \<le> round_digits (mean ts) 3 \<and>
           round_digits (mean ts) 3 \<le> round_digits (Math_max ts) 3"
    if "foldl (\<lambda>sum v. js_add sum v) 0 ts = sum_list ts"
    using mean_exact_between[OF ne dbl that] by (simp add: mn mx round_digits_mono)
  show ?thesis
    unfolding Let_def case_stats_def ts_def[symmetric]
    using len 1 2 3 by simp
qed

theorem case_latency_statistics_witness:
  "measure_loop example_host fake_metric ''text-layout'' False 3
     (initial_measured \<lparr>rss = 98566144, heapUsed = 55574528\<rparr>) example_clock
     = (Inr example_measured, []) \<and>
   times_ms (initial_measured \<lparr>rss = 98566144, heapUsed = 55574528\<rparr>) = [] \<and>
   foldl (\<lambda>sum v. js_add sum v) 0 (times_ms example_measured)
     = sum_list (times_ms example_measured) \<and>
   length (times_ms example_measured) = 3 \<and>
   (let st = case_stats fake_metric ''text-layout'' example_options
               \<lparr>rss = 98566144, heapUsed = 55574528\<rparr> example_measured
               \<lparr>rss = 104857600, heapUsed = 52428800\<rparr>
    in minMs st \<le> p95Ms st \<and> p95Ms st \<le> maxMs st \<and> minMs st \<le> avgMs st \<and> avgMs st \<le> maxMs st)"
proof -
  have t: "times_ms (initial_measured \<lparr>rss = 98566144, heapUsed = 55574528\<rparr>) = []"
    by (simp add: initial_measured_def)
  have s: "foldl (\<lambda>sum v. js_add sum v) 0 (times_ms example_measured)
             = sum_list (times_ms example_measured)"
    by (simp add: example_measured_def js_add_def rnd64_numeral)
  have n: "0 < (3 :: nat)" by simp
  show ?thesis
    using case_latency_statistics[OF example_measure_loop t n, of "example_options"
        "\<lparr>rss = 98566144, heapUsed = 55574528\<rparr>" "\<lparr>rss = 104857600, heapUsed = 52428800\<rparr>"]
      example_measure_loop t s
    by (simp add: Let_def)
qed

text \<open>
  The claim C3 as stated fails on the slow fixture: three iterations of 3204.5485 ms
  each.  Their running sum is rounded at the third addition, the mean comes out one unit
  in the last place below 3204.5485, and \<open>round_digits\<close> takes it to 3204.548 while it
  takes the minimum, 3204.5485 itself, to 3204.549.
\<close>

theorem latency_mean_counterexample:
  "runCase ''text-layout'' fake_metric example_options example_host slow_clock
     = (Inr (slow_case_stats, None), []) \<and>
   iterations example_options = 3 \<and>
   avgMs slow_case_stats = 3523437787766325 / 1099511627776 \<and>
   minMs slow_case_stats = 3523438887277953 / 1099511627776 \<and>
   avgMs slow_case_stats < minMs slow_case_stats"
  using slow_runCase by (simp add: example_options_def slow_case_stats_def)

text \<open>
  Claim C6.  In the statistics of every completed case the two peak deltas are not
  negative: each peak starts at the case's own baseline and only grows, by \<open>max\<close>, and
  subtraction, division and \<open>round_digits\<close> keep the sign.
\<close>

theorem peak_deltas_nonneg:
  assumes "runCase task renderer options h w = (Inr (st, smp), w')"
  shows "0 \<le> rssPeakDeltaMb st \<and> 0 \<le> heapPeakDeltaMb st"
proof -
  from assms(1) obtain w1 baseline w2 m w3 ending where
    loop: "measure_loop h renderer task (saveImages options) (iterations options)
       (initial_measured baseline) w2 = (Inr m, w3)"
    and st: "st = case_stats renderer task options baseline m ending"
    by (rule runCase_InrE)
  have "rss baseline \<le> rssPeak m \<and> heapUsed baseline \<le> heapPeak m"
    by (rule peaks_above_baseline[OF loop]) (simp add: initial_measured_def)
  then show ?thesis
    unfolding st case_stats_def
    by (simp add: round_digits_nonneg formatMb_nonneg js_sub_nonneg)
qed

theorem peak_deltas_nonneg_witness:
  "runCase ''text-layout'' fake_metric example_options example_host example_clock
     = (Inr (example_case_stats, None), []) \<and>
   rssPeakDeltaMb example_case_stats = 6 \<and> heapPeakDeltaMb example_case_stats = 0 \<and>
   0 \<le> rssPeakDeltaMb example_case_stats \<and> 0 \<le> heapPeakDeltaMb example_case_stats"
  using peak_deltas_nonneg[OF example_runCase] example_runCase
  by (simp add: example_case_stats_def)

text \<open>
  Claim C10.  In the statistics of every completed case the unit is \<open>Bytes\<close> exactly when
  the kind is \<open>KImage\<close>, and \<open>Value\<close> exactly when the kind is \<open>KMetric\<close>: both locals start
  as \<open>KMetric\<close> and \<open>Value\<close> and every iteration sets them together from the same output.
\<close>

theorem output_unit_matches_kind:
  assumes "runCase task renderer options h w = (Inr (st, smp), w')"
  shows "(outputUnit st = Bytes \<longleftrightarrow> outputKind st = KImage) \<and>
         (outputUnit st = Value \<longleftrightarrow> outputKind st = KMetric)"
proof -
  from assms(1) obtain w1 baseline w2 m w3 ending where
    loop: "measure_loop h renderer task (saveImages options) (iterations options)
       (initial_measured baseline) w2 = (Inr m, w3)"
    and st: "st = case_stats renderer task options baseline m ending"
    by (rule runCase_InrE)
  have "cur_outputUnit m = Bytes \<longleftrightarrow> cur_outputKind m = KImage"
    by (rule unit_follows_kind[OF loop]) (simp add: initial_measured_def)
  moreover have "outputUnit st = Value \<longleftrightarrow> outputUnit st \<noteq> Bytes"
    by (cases "outputUnit st") simp_all
  moreover have "outputKind st = KMetric \<longleftrightarrow> outputKind st \<noteq> KImage"
    by (cases "outputKind st") simp_all
  ultimately show ?thesis by (simp add: st case_stats_def)
qed

theorem output_unit_matches_kind_witness:
  "runCase ''text-layout'' fake_metric example_options example_host example_clock
     = (Inr (example_case_stats, None), []) \<and>
   outputUnit example_case_stats = Value \<and> outputKind example_case_stats = KMetric"
  using output_unit_matches_kind[OF example_runCase] example_runCase
  by (simp add: example_case_stats_def)

section \<open>index.ts: options\<close>

lemma parseInteger_Inr_iff:
  "(\<exists>n. parseInteger v fallback label = Inr n) \<longleftrightarrow> positive_count v"
  by (auto simp: parseInteger_def positive_count_def split: option.splits parsed.splits)

lemma parseInteger_error:
  "parseInteger v fallback label = Inl e \<Longrightarrow> e = Error (label @ '' must be a positive integer'')"
  by (auto simp: parseInteger_def split: option.splits parsed.splits if_splits)

lemma parseInt_positive:
  assumes "parseInt s = Num p" "0 < p"
  shows "1 \<le> p"
proof -
  define d where "d = digits_value (takeWhile is_digit
      (case dropWhile is_space s of [] \<Rightarrow> dropWhile is_space s
       | c # cs \<Rightarrow> if c = CHR ''+'' \<or> c = CHR ''-'' then cs else dropWhile is_space s))"
  have nn: "0 \<le> rnd64 (of_nat d)" by (rule rnd64_nonneg) simp
  from assms have p: "p = rnd64 (of_nat d)"
    using nn by (auto simp: parseInt_def Let_def d_def split: if_splits)
  then have "d \<noteq> 0" using assms(2) by (intro notI) simp
  then have "(1 :: rat) \<le> of_nat d" by (simp add: Suc_le_eq)
  then have "rnd64 1 \<le> rnd64 (of_nat d)" by (rule rnd64_mono)
  then show ?thesis using p by simp
qed

lemma parseInteger_positive:
  assumes "parseInteger v fallback label = Inr n" "0 < fallback"
  shows "0 < n"
proof (cases v)
  case None
  then show ?thesis using assms by (simp add: parseInteger_def)
next
  case (Some s)
  then obtain p where p: "parseInt s = Num p" "0 < p" "n = nat \<lfloor>p\<rfloor>"
    using assms(1) by (auto simp: parseInteger_def split: parsed.splits if_splits)
  from parseInt_positive[OF p(1,2)] have "1 \<le> \<lfloor>p\<rfloor>" by (simp add: le_floor_iff)
  then show ?thesis using p(3) by simp
qed

lemma parseTasks_Inr_iff:
  "(\<exists>ts. parseTasks v = Inr ts) \<longleftrightarrow>
     (case v of None \<Rightarrow> True
      | Some items \<Rightarrow> requested_names items \<noteq> [] \<and> set (requested_names items) \<subseteq> set ALL_TASKS)"
  by (auto simp: parseTasks_def Let_def filter_empty_conv split: option.splits)

lemma parseTasks_Inr:
  "parseTasks v = Inr ts \<Longrightarrow>
     ts = (case v of None \<Rightarrow> ALL_TASKS | Some items \<Rightarrow> requested_names items)"
  by (auto simp: parseTasks_def Let_def split: option.splits if_splits)

lemma parseTasks_unknown:
  assumes "x \<in> set (requested_names items)" "x \<notin> set ALL_TASKS"
  shows "\<exists>msg. parseTasks (Some items) = Inl (Error msg)"
proof -
  have "requested_names items \<noteq> []" using assms(1) by auto
  moreover have "filter (\<lambda>item. item \<notin> set ALL_TASKS) (requested_names items) \<noteq> []"
    using assms by (auto simp: filter_empty_conv)
  ultimately show ?thesis by (simp add: parseTasks_def Let_def)
qed

lemma parseTasks_error: "parseTasks v = Inl e \<Longrightarrow> \<exists>msg. e = Error msg"
  by (auto simp: parseTasks_def Let_def split: option.splits if_splits)

lemma parseCliOptions_error: "parseCliOptions v = Inl e \<Longrightarrow> \<exists>msg. e = Error msg"
  by (auto simp: parseCliOptions_def Let_def split: sum.splits
        dest: parseTasks_error parseInteger_error)

lemma parseCliOptions_Inr_iff:
  "(\<exists>options. parseCliOptions v = Inr options) \<longleftrightarrow>
     (\<exists>ts. parseTasks (cli_workload v) = Inr ts) \<and>
     positive_count (nullish (cli_warmup v) (env_BENCH_WARMUP v)) \<and>
     positive_count (nullish (cli_iterations v) (env_BENCH_ITERATIONS v))"
proof -
  have w: "positive_count (nullish (cli_warmup v) (env_BENCH_WARMUP v)) \<longleftrightarrow>
      (\<exists>n. parseInteger (nullish (cli_warmup v) (env_BENCH_WARMUP v)) 3 ''warmup'' = Inr n)"
    by (rule parseInteger_Inr_iff[symmetric])
  have i: "positive_count (nullish (cli_iterations v) (env_BENCH_ITERATIONS v)) \<longleftrightarrow>
      (\<exists>n. parseInteger (nullish (cli_iterations v) (env_BENCH_ITERATIONS v)) 12 ''iterations''
             = Inr n)"
    by (rule parseInteger_Inr_iff[symmetric])
  show ?thesis
    unfolding w i by (auto simp: parseCliOptions_def Let_def split: sum.splits)
qed

lemma parseCliOptions_Inr:
  assumes "parseCliOptions v = Inr options"
  shows "tasks options = (case cli_workload v of None \<Rightarrow> ALL_TASKS
                          | Some items \<Rightarrow> requested_names items)"
    and "0 < warmup options" and "0 < iterations options"
  using assms
  by (auto simp: parseCliOptions_def Let_def split: sum.splits
        dest: parseTasks_Inr parseInteger_positive)

lemma bench_main_rejects:
  assumes "\<not> (\<exists>options. parseCliOptions v = Inr options)"
  shows "\<exists>msg. bench_main h info renderers v w = (Some (Error msg), initial w)"
proof (cases "parseCliOptions v")
  case (Inl e)
  then show ?thesis using parseCliOptions_error[OF Inl] by (auto simp: bench_main_def)
next
  case (Inr options)
  then show ?thesis using assms by simp
qed

text \<open>The fixtures of the command line, evaluated.\<close>

lemma example_names:
  "requested_names ['' text-layout , bogus''] = [''text-layout'', ''bogus'']"
  "requested_names ['' text-layout ''] = [''text-layout'']"
  "requested_names ['',''] = []"
  "requested_names [''encode-svg,encode-svg''] = [''encode-svg'', ''encode-svg'']"
  "requested_names [''text-layout,encode-png''] = [''text-layout'', ''encode-png'']"
  by (simp_all add: requested_names_def trim_def is_space_def)

lemma example_parseInt:
  "parseInt ''12abc'' = Num 12" "parseInt ''0'' = Num 0" "parseInt ''1'' = Num 1"
  "parseInt ''5'' = Num 5" "parseInt ''2'' = Num 2"
  by (simp_all add: parseInt_def is_space_def is_digit_def digits_value_def rnd64_numeral)

lemma example_counts:
  "positive_count None" "positive_count (Some ''12abc'')" "\<not> positive_count (Some ''0'')"
  "positive_count (Some ''1'')" "positive_count (Some ''5'')" "positive_count (Some ''2'')"
  by (simp_all add: positive_count_def example_parseInt)

lemma example_cli_fields:
  "cli_workload (example_cli a b c) = a"
  "nullish (cli_iterations (example_cli a b c)) (env_BENCH_ITERATIONS (example_cli a b c)) = b"
  "nullish (cli_warmup (example_cli a b c)) (env_BENCH_WARMUP (example_cli a b c)) = c"
  "cli_save_images (example_cli a b c) = False" "cli_save_dir (example_cli a b c) = None"
  "cwd (example_cli a b c) = ''/bench''"
  by (simp_all add: example_cli_def nullish_def split: option.splits)

lemma parseTasks_empty:
  "requested_names items = [] \<Longrightarrow>
     parseTasks (Some items) = Inl (Error ''--workload requires at least one task name'')"
  by (simp add: parseTasks_def)

lemma example_ascii:
  "ascii_options (example_cli (Some ['' text-layout , bogus'']) None None)"
  "ascii_options (example_cli None None (Some ''0''))"
  "ascii_options (example_cli (Some ['','']) None None)"
  "ascii_options (example_cli (Some ['' text-layout '']) (Some ''12abc'') None)"
  by (simp_all add: ascii_options_def ascii_def example_cli_def)

text \<open>
  Claim C8, as amended.  The option values are made of ASCII characters.  Before any case
  runs (the program ends with the error in its initial state, the world untouched),
  validation rejects every requested workload name that is not in \<open>ALL_TASKS\<close> and every
  warmup or iteration count that is given, on the command line or in the environment, and
  that \<open>parseInt\<close> does not read as a positive number.  It rejects every workload option
  that names no workload at all, nothing being left of it after splitting at the commas,
  trimming and dropping the empty names, with an error of its own.  It accepts a
  configuration whose counts are positive or absent and whose workload option is absent or
  names at least one workload, all known.
\<close>

theorem configuration_validation:
  "(ascii_options v \<and> cli_workload v = Some items \<and> x \<in> set (requested_names items) \<and>
    x \<notin> set ALL_TASKS \<longrightarrow>
      (\<exists>msg. bench_main h info renderers v w = (Some (Error msg), initial w))) \<and>
   (ascii_options v \<and>
    (\<not> positive_count (nullish (cli_warmup v) (env_BENCH_WARMUP v)) \<or>
     \<not> positive_count (nullish (cli_iterations v) (env_BENCH_ITERATIONS v))) \<longrightarrow>
      (\<exists>msg. bench_main h info renderers v w = (Some (Error msg), initial w))) \<and>
   (ascii_options v \<and> cli_workload v = Some items \<and> requested_names items = [] \<longrightarrow>
      bench_main h info renderers v w
        = (Some (Error ''--workload requires at least one task name''), initial w)) \<and>
   (ascii_options v \<and>
    (case cli_workload v of None \<Rightarrow> True
     | Some items \<Rightarrow> requested_names items \<noteq> [] \<and> set (requested_names items) \<subseteq> set ALL_TASKS) \<and>
    positive_count (nullish (cli_warmup v) (env_BENCH_WARMUP v)) \<and>
    positive_count (nullish (cli_iterations v) (env_BENCH_ITERATIONS v)) \<longrightarrow>
      (\<exists>options. parseCliOptions v = Inr options \<and>
         tasks options = (case cli_workload v of None \<Rightarrow> ALL_TASKS
                          | Some items \<Rightarrow> requested_names items) \<and>
         0 < warmup options \<and> 0 < iterations options))"
proof (intro conjI impI)
  assume a: "ascii_options v \<and> cli_workload v = Some items \<and> x \<in> set (requested_names items) \<and>
    x \<notin> set ALL_TASKS"
  then have "\<not> (\<exists>ts. parseTasks (cli_workload v) = Inr ts)"
    using parseTasks_unknown[of x items] by auto
  then have "\<not> (\<exists>options. parseCliOptions v = Inr options)"
    by (simp add: parseCliOptions_Inr_iff)
  then show "\<exists>msg. bench_main h info renderers v w = (Some (Error msg), initial w)"
    by (rule bench_main_rejects)
next
  assume "ascii_options v \<and>
    (\<not> positive_count (nullish (cli_warmup v) (env_BENCH_WARMUP v)) \<or>
     \<not> positive_count (nullish (cli_iterations v) (env_BENCH_ITERATIONS v)))"
  then have "\<not> (\<exists>options. parseCliOptions v = Inr options)"
    by (auto simp: parseCliOptions_Inr_iff)
  then show "\<exists>msg. bench_main h info renderers v w = (Some (Error msg), initial w)"
    by (rule bench_main_rejects)
next
  assume a: "ascii_options v \<and> cli_workload v = Some items \<and> requested_names items = []"
  then have "parseTasks (cli_workload v)
               = Inl (Error ''--workload requires at least one task name'')"
    by (simp add: parseTasks_empty)
  then show "bench_main h info renderers v w
        = (Some (Error ''--workload requires at least one task name''), initial w)"
    by (simp add: bench_main_def parseCliOptions_def)
next
  assume a: "ascii_options v \<and>
    (case cli_workload v of None \<Rightarrow> True
     | Some items \<Rightarrow> requested_names items \<noteq> [] \<and> set (requested_names items) \<subseteq> set ALL_TASKS) \<and>
    positive_count (nullish (cli_warmup v) (env_BENCH_WARMUP v)) \<and>
    positive_count (nullish (cli_iterations v) (env_BENCH_ITERATIONS v))"
  then have "\<exists>options. parseCliOptions v = Inr options"
    by (simp add: parseCliOptions_Inr_iff parseTasks_Inr_iff)
  then obtain options where o: "parseCliOptions v = Inr options" ..
  show "\<exists>options. parseCliOptions v = Inr options \<and>
         tasks options = (case cli_workload v of None \<Rightarrow> ALL_TASKS
                          | Some items \<Rightarrow> requested_names items) \<and>
         0 < warmup options \<and> 0 < iterations options"
    using o parseCliOptions_Inr[OF o] by blast
qed

theorem configuration_validation_witness:
  "ascii_options (example_cli (Some ['' text-layout , bogus'']) None None) \<and>
   ''bogus'' \<in> set (requested_names ['' text-layout , bogus'']) \<and> ''bogus'' \<notin> set ALL_TASKS \<and>
   (\<exists>msg. bench_main example_host example_info [fake_metric]
            (example_cli (Some ['' text-layout , bogus'']) None None) example_clock
          = (Some (Error msg), initial example_clock)) \<and>
   ascii_options (example_cli None None (Some ''0'')) \<and> \<not> positive_count (Some ''0'') \<and>
   (\<exists>msg. bench_main example_host example_info [fake_metric]
            (example_cli None None (Some ''0'')) example_clock
          = (Some (Error msg), initial example_clock)) \<and>
   ascii_options (example_cli (Some ['','']) None None) \<and> requested_names ['',''] = [] \<and>
   bench_main example_host example_info [fake_metric]
       (example_cli (Some ['','']) None None) example_clock
     = (Some (Error ''--workload requires at least one task name''), initial example_clock) \<and>
   ascii_options (example_cli (Some ['' text-layout '']) (Some ''12abc'') None) \<and>
   positive_count (Some ''12abc'') \<and>
   (\<exists>options. parseCliOptions (example_cli (Some ['' text-layout '']) (Some ''12abc'') None)
                = Inr options \<and>
              tasks options = [''text-layout''] \<and> 0 < warmup options \<and> 0 < iterations options)"
proof -
  have 1: "''bogus'' \<in> set (requested_names ['' text-layout , bogus''])"
    "''bogus'' \<notin> set ALL_TASKS"
    by (simp_all add: example_names ALL_TASKS_def)
  have 2: "set (requested_names ['' text-layout '']) \<subseteq> set ALL_TASKS"
    by (simp add: example_names ALL_TASKS_def)
  note t = configuration_validation[where h = example_host and info = example_info
      and renderers = "[fake_metric]" and w = example_clock]
  show ?thesis
    using 1 2
      t[of "example_cli (Some ['' text-layout , bogus'']) None None"
           "['' text-layout , bogus'']" "''bogus''"]
      t[of "example_cli None None (Some ''0'')"]
      t[of "example_cli (Some ['','']) None None" "['','']"]
      t[of "example_cli (Some ['' text-layout '']) (Some ''12abc'') None"]
    by (simp add: example_cli_fields example_counts example_names example_ascii)
qed

text \<open>
  The claim C8 as stated fails for \<^verbatim>\<open>--workload , --iterations 5 --warmup 2\<close>: no name
  is left after splitting and trimming, so the configuration has no workload name that is
  not known and both its counts are positive, and it is rejected all the same.
\<close>

theorem empty_workload_counterexample:
  "set (requested_names ['','']) \<subseteq> set ALL_TASKS \<and>
   positive_count (Some ''5'') \<and> positive_count (Some ''2'') \<and>
   parseCliOptions (example_cli (Some ['','']) (Some ''5'') (Some ''2''))
     = Inl (Error ''--workload requires at least one task name'') \<and>
   bench_main example_host example_info [fake_metric]
       (example_cli (Some ['','']) (Some ''5'') (Some ''2'')) example_clock
     = (Some (Error ''--workload requires at least one task name''), initial example_clock)"
  by (simp add: example_names example_counts bench_main_def parseCliOptions_def parseTasks_def
        example_cli_def)

section \<open>index.ts: the report\<close>

lemma stats_rows_append [simp]: "stats_rows (xs @ ys) = stats_rows xs @ stats_rows ys"
  by (induction xs rule: stats_rows.induct) simp_all

lemma skip_rows_append [simp]: "skip_rows (xs @ ys) = skip_rows xs @ skip_rows ys"
  by (induction xs rule: skip_rows.induct) simp_all

lemma image_rows_append [simp]: "image_rows (xs @ ys) = image_rows xs @ image_rows ys"
  by (induction xs rule: image_rows.induct) simp_all

lemma rows_of_StatsRows [simp]:
  "stats_rows (map StatsRow rs) = rs" "skip_rows (map StatsRow rs) = []"
  "image_rows (map StatsRow rs) = []"
  by (induction rs) simp_all

lemma rows_of_SkipRows [simp]:
  "stats_rows (map SkipRow rs) = []" "skip_rows (map SkipRow rs) = rs"
  "image_rows (map SkipRow rs) = []"
  by (induction rs) simp_all

lemma rows_of_ImageRows [simp]:
  "stats_rows (map ImageRow rs) = []" "skip_rows (map ImageRow rs) = []"
  "image_rows (map ImageRow rs) = rs"
  by (induction rs) simp_all

lemma rows_of_header [simp]:
  "stats_rows (report_header info g options) = []"
  "skip_rows (report_header info g options) = []"
  "image_rows (report_header info g options) = []"
  by (simp_all add: report_header_def)

lemma rows_of_task_section [simp]:
  "stats_rows (task_section sts task) = sort_key avgMs (filter (\<lambda>entry. st_task entry = task) sts)"
  "skip_rows (task_section sts task) = []"
  "image_rows (task_section sts task) = []"
  by (simp_all add: task_section_def Let_def)

lemma rows_of_skipped_section [simp]:
  "stats_rows (skipped_section sk) = []" "skip_rows (skipped_section sk) = sk"
  "image_rows (skipped_section sk) = []"
  by (simp_all add: skipped_section_def)

lemma rows_of_saved_section [simp]:
  "stats_rows (saved_section imgs) = []" "skip_rows (saved_section imgs) = []"
  "image_rows (saved_section imgs) = imgs"
  by (simp_all add: saved_section_def)

lemma rows_of_sections:
  "stats_rows (concat (map (task_section sts) ts))
     = concat (map (\<lambda>task. sort_key avgMs (filter (\<lambda>entry. st_task entry = task) sts)) ts)"
  "skip_rows (concat (map (task_section sts) ts)) = []"
  "image_rows (concat (map (task_section sts) ts)) = []"
  by (induction ts) simp_all

text \<open>
  Claim C9.  The report has one section for each requested workload, in the order of the
  request; the statistics rows of a section are the accumulated statistics of that
  workload, ascending by \<open>avgMs\<close>.  After the last of these sections come the section of
  the skip records, then the section of the saved samples: no skip or sample row stands
  among the statistics, no statistics row after them, and both lists are printed in the
  order they were accumulated in.
\<close>

theorem report_grouped_and_sorted:
  "stats_rows (task_section sts task) = sort_key avgMs (filter (\<lambda>entry. st_task entry = task) sts) \<and>
   sorted (map avgMs (stats_rows (task_section sts task))) \<and>
   mset (stats_rows (task_section sts task)) = filter_mset (\<lambda>entry. st_task entry = task) (mset sts) \<and>
   (let groups = report_header info g options @ concat (map (task_section sts) (tasks options))
    in buildMarkdownReport info g options sts sk imgs
         = groups @ skipped_section sk @ saved_section imgs \<and>
       stats_rows groups
         = concat (map (\<lambda>task. sort_key avgMs (filter (\<lambda>entry. st_task entry = task) sts))
             (tasks options)) \<and>
       skip_rows groups = [] \<and> image_rows groups = [] \<and>
       stats_rows (skipped_section sk) = [] \<and> skip_rows (skipped_section sk) = sk \<and>
       image_rows (skipped_section sk) = [] \<and>
       stats_rows (saved_section imgs) = [] \<and> skip_rows (saved_section imgs) = [] \<and>
       image_rows (saved_section imgs) = imgs)"
  by (simp add: Let_def buildMarkdownReport_def rows_of_sections)

theorem report_grouped_and_sorted_witness:
  "stats_rows (task_section [slow_case_stats, example_case_stats] ''text-layout'')
     = [example_case_stats, slow_case_stats] \<and>
   stats_rows (task_section [slow_case_stats, example_case_stats] ''encode-png'') = []"
  using report_grouped_and_sorted[of "[slow_case_stats, example_case_stats]" "''text-layout''"]
    report_grouped_and_sorted[of "[slow_case_stats, example_case_stats]" "''encode-png''"]
  by (simp add: slow_case_stats_def example_case_stats_def)

section \<open>index.ts: the suite\<close>

lemma run_cases_append:
  "run_cases h options (xs @ ys) s =
     (case run_cases h options xs s of
        (Some e, s1) \<Rightarrow> (Some e, s1)
      | (None, s1) \<Rightarrow> run_cases h options ys s1)"
  by (induction xs arbitrary: s) (auto split: prod.splits option.splits)

lemma run_renderers_eq_run_cases:
  "run_renderers h options task renderers s
     = run_cases h options (map (\<lambda>renderer. (task, renderer)) renderers) s"
  by (induction renderers arbitrary: s) (auto split: prod.splits option.splits)

lemma run_tasks_eq_run_cases:
  "run_tasks h options renderers ts s = run_cases h options (case_list ts renderers) s"
proof (induction ts arbitrary: s)
  case Nil
  then show ?case by (simp add: case_list_def)
next
  case (Cons task ts)
  have "case_list (task # ts) renderers
          = map (\<lambda>renderer. (task, renderer)) renderers @ case_list ts renderers"
    by (simp add: case_list_def)
  then show ?case
    by (simp add: run_cases_append run_renderers_eq_run_cases Cons.IH
          split: prod.splits option.splits)
qed

text \<open>An error that ends a loop of calls is the error one of the calls raised.\<close>

lemma warmup_loop_error:
  "warmup_loop renderer task n w = (Some e, w') \<Longrightarrow>
     \<exists>w0. run renderer task w0 = (Inl e, w')"
  by (induction n arbitrary: w) (auto split: prod.splits sum.splits)

lemma measure_loop_error:
  "measure_loop h renderer task save n m w = (Inl e, w') \<Longrightarrow>
     \<exists>w0. run renderer task w0 = (Inl e, w')"
  by (induction n arbitrary: m w) (auto split: prod.splits sum.splits)

lemma runCase_error:
  assumes "runCase task renderer options h w = (Inl e, w')"
  shows "\<exists>w0. run renderer task w0 = (Inl e, w')"
  using assms unfolding runCase_def Let_def
  by (auto split: prod.splits option.splits sum.splits
        dest: warmup_loop_error measure_loop_error)

lemma runCase_first_call:
  assumes "run renderer task w = (Inl e, w')" "0 < warmup options"
  shows "runCase task renderer options h w = (Inl e, w')"
proof -
  obtain n where "warmup options = Suc n" using assms(2) by (cases "warmup options") auto
  then show ?thesis using assms(1) by (simp add: runCase_def)
qed

lemma case_stats_key [simp]:
  "stat_key (case_stats renderer task options baseline m ending) = (name renderer, task)"
  by (simp add: stat_key_def case_stats_def)

lemma save_sample_fields [simp]:
  "stats (save_sample options task renderer smp s) = stats s"
  "skipped (save_sample options task renderer smp s) = skipped s"
  "world (save_sample options task renderer smp s) = world s"
  "stdout (save_sample options task renderer smp s) = stdout s"
  by (auto simp: save_sample_def Let_def split: option.splits)

lemma save_sample_no_report [simp]:
  "filter is_report_write (fs (save_sample options task renderer smp s))
     = filter is_report_write (fs s)"
  by (auto simp: save_sample_def Let_def split: option.splits)

text \<open>What one case does to the suite, by the outcome of \<open>runCase\<close>.\<close>

lemma run_one_completed:
  assumes "runCase task renderer options h (world s) = (Inr (st, smp), w')"
  shows "\<exists>s'. run_one h options task renderer s = (None, s') \<and>
           stats s' = stats s @ [st] \<and> skipped s' = skipped s \<and>
           stat_key st = (name renderer, task) \<and>
           filter is_report_write (fs s') = filter is_report_write (fs s)"
proof -
  from assms have "stat_key st = (name renderer, task)"
    by (auto elim!: runCase_InrE)
  then show ?thesis using assms by (simp add: run_one_def)
qed

lemma run_one_skipped:
  assumes "runCase task renderer options h (world s) = (Inl (UnsupportedTaskError msg), w')"
  shows "run_one h options task renderer s =
           (None, s\<lparr>world := w',
                    skipped := skipped s @
                      [\<lparr>sk_renderer = name renderer, sk_task = task, reason = msg\<rparr>],
                    stdout := stdout s @ [Running (name renderer) task, SkippedLine]\<rparr>)"
  using assms by (simp add: run_one_def)

lemma run_one_failed:
  assumes "runCase task renderer options h (world s) = (Inl (Error msg), w')"
  shows "run_one h options task renderer s =
           (Some (Error msg),
            s\<lparr>world := w', stdout := stdout s @ [Running (name renderer) task, FailedLine]\<rparr>)"
  using assms by (simp add: run_one_def)

lemma run_one_no_report:
  "run_one h options task renderer s = (r, s') \<Longrightarrow>
     filter is_report_write (fs s') = filter is_report_write (fs s)"
  by (auto simp: run_one_def Let_def split: prod.splits sum.splits error.splits)

lemma run_cases_no_report:
  "run_cases h options cs s = (r, s') \<Longrightarrow>
     filter is_report_write (fs s') = filter is_report_write (fs s)"
proof (induction cs arbitrary: s)
  case Nil
  then show ?case by simp
next
  case (Cons c cs)
  obtain r1 s1 where one: "run_one h options (fst c) (snd c) s = (r1, s1)"
    by (cases "run_one h options (fst c) (snd c) s")
  note keep = run_one_no_report[OF one]
  show ?case
  proof (cases r1)
    case None
    then have "run_cases h options cs s1 = (r, s')" using Cons.prems one by simp
    from Cons.IH[OF this] keep show ?thesis by simp
  next
    case (Some e)
    then have "s' = s1" using Cons.prems one by simp
    then show ?thesis using keep by simp
  qed
qed

lemma suite_start_no_report [simp]:
  "filter is_report_write (fs (suite_start options w)) = []"
  by (simp add: suite_start_def initial_def)

text \<open>Without a fatal error every case ends in one record.\<close>

lemma runCase_never_fatal:
  assumes "never_fatal renderer"
  shows "(\<exists>st smp w'. runCase task renderer options h w = (Inr (st, smp), w')) \<or>
         (\<exists>msg w'. runCase task renderer options h w = (Inl (UnsupportedTaskError msg), w'))"
proof (cases "runCase task renderer options h w")
  case (Pair r w')
  show ?thesis
  proof (cases r)
    case (Inl e)
    with Pair have "runCase task renderer options h w = (Inl e, w')" by simp
    then have "\<exists>w0. run renderer task w0 = (Inl e, w')" by (rule runCase_error)
    then obtain w0 where "run renderer task w0 = (Inl e, w')" ..
    then have "fst (run renderer task w0) = Inl e" by simp
    then have "\<forall>msg. e \<noteq> Error msg"
      using assms unfolding never_fatal_def by metis
    then show ?thesis using Pair Inl by (cases e) auto
  next
    case (Inr p)
    then show ?thesis using Pair by (cases p) auto
  qed
qed

lemma runCase_always_unsupported:
  assumes "always_unsupported renderer task" "0 < warmup options"
  shows "\<exists>msg w'. runCase task renderer options h w = (Inl (UnsupportedTaskError msg), w')"
proof -
  obtain r w' where r: "run renderer task w = (r, w')" by (cases "run renderer task w")
  then obtain msg where "r = Inl (UnsupportedTaskError msg)"
    using assms(1) by (auto simp: always_unsupported_def dest: spec[where x = w])
  with r have "run renderer task w = (Inl (UnsupportedTaskError msg), w')" by simp
  then have "runCase task renderer options h w = (Inl (UnsupportedTaskError msg), w')"
    using assms(2) by (rule runCase_first_call)
  then show ?thesis by blast
qed

lemma run_cases_records:
  assumes "\<forall>c\<in>set cs. never_fatal (snd c)"
    and "\<forall>c\<in>set cs. case_key c = k \<longrightarrow> always_unsupported (snd c) (fst c)"
    and "0 < warmup options"
  shows "\<exists>s'. run_cases h options cs s = (None, s') \<and>
           mset (map stat_key (stats s')) + mset (map skip_key (skipped s'))
             = mset (map stat_key (stats s)) + mset (map skip_key (skipped s))
               + mset (map case_key cs) \<and>
           (k \<notin> set (map stat_key (stats s)) \<longrightarrow> k \<notin> set (map stat_key (stats s')))"
  using assms(1,2)
proof (induction cs arbitrary: s)
  case Nil
  then show ?case by simp
next
  case (Cons c cs)
  obtain task renderer where c: "c = (task, renderer)" by (cases c)
  have nf: "never_fatal renderer" using Cons.prems(1) c by simp
  have "\<exists>s1. run_one h options task renderer s = (None, s1) \<and>
          mset (map stat_key (stats s1)) + mset (map skip_key (skipped s1))
            = mset (map stat_key (stats s)) + mset (map skip_key (skipped s))
              + {#case_key c#} \<and>
          (k \<notin> set (map stat_key (stats s)) \<longrightarrow> k \<notin> set (map stat_key (stats s1)))"
  proof (cases "case_key c = k")
    case True
    then have "always_unsupported renderer task" using Cons.prems(2) c by simp
    from runCase_always_unsupported[OF this assms(3)] obtain msg w' where
      "runCase task renderer options h (world s) = (Inl (UnsupportedTaskError msg), w')"
      by blast
    from run_one_skipped[OF this] show ?thesis
      by (simp add: skip_key_def case_key_def c)
  next
    case False
    from runCase_never_fatal[OF nf] consider
      (ok) st smp w' where "runCase task renderer options h (world s) = (Inr (st, smp), w')"
      | (skip) msg w' where
          "runCase task renderer options h (world s) = (Inl (UnsupportedTaskError msg), w')"
      by blast
    then show ?thesis
    proof cases
      case ok
      from run_one_completed[OF this] False show ?thesis
        by (auto simp: case_key_def c)
    next
      case skip
      from run_one_skipped[OF this] show ?thesis
        by (simp add: skip_key_def case_key_def c)
    qed
  qed
  then obtain s1 where s1: "run_one h options task renderer s = (None, s1)"
    "mset (map stat_key (stats s1)) + mset (map skip_key (skipped s1))
       = mset (map stat_key (stats s)) + mset (map skip_key (skipped s)) + {#case_key c#}"
    "k \<notin> set (map stat_key (stats s)) \<longrightarrow> k \<notin> set (map stat_key (stats s1))"
    by blast
  have "\<forall>c\<in>set cs. never_fatal (snd c)"
    "\<forall>c\<in>set cs. case_key c = k \<longrightarrow> always_unsupported (snd c) (fst c)"
    using Cons.prems by simp_all
  from Cons.IH[OF this, of s1] obtain s' where s': "run_cases h options cs s1 = (None, s')"
    "mset (map stat_key (stats s')) + mset (map skip_key (skipped s'))
       = mset (map stat_key (stats s1)) + mset (map skip_key (skipped s1))
         + mset (map case_key cs)"
    "k \<notin> set (map stat_key (stats s1)) \<longrightarrow> k \<notin> set (map stat_key (stats s'))"
    by blast
  show ?case
    using s1 s' by (simp add: c)
qed

lemma count_case_keys:
  assumes "renderer \<in> set renderers" "distinct (map name renderers)"
  shows "count (mset (map case_key (case_list ts renderers))) (name renderer, task)
           = count (mset ts) task"
proof -
  have one: "count (mset (map case_key (map (\<lambda>r. (t, r)) renderers))) (name renderer, task)
               = (if t = task then 1 else 0)" for t
  proof -
    have "count (mset (map case_key (map (\<lambda>r. (t, r)) rs))) (n0, task)
            = (if t = task then count (mset (map name rs)) n0 else 0)" for rs :: "'a BenchRenderer list" and n0
      by (induction rs) (auto simp: case_key_def)
    moreover have "count (mset (map name renderers)) (name renderer) = 1"
      using assms by (simp add: distinct_count_atmost_1)
    ultimately show ?thesis by simp
  qed
  show ?thesis
  proof (induction ts)
    case Nil
    then show ?case by (simp add: case_list_def)
  next
    case (Cons t ts)
    have split: "count (mset (map case_key (case_list (t # ts) renderers))) (name renderer, task)
        = count (mset (map case_key (map (\<lambda>r. (t, r)) renderers))) (name renderer, task)
          + count (mset (map case_key (case_list ts renderers))) (name renderer, task)"
      by (simp add: case_list_def)
    show ?case unfolding split one Cons.IH by simp
  qed
qed

lemma write_reports_fields [simp]:
  "stats (write_reports h info options dir s) = stats s"
  "skipped (write_reports h info options dir s) = skipped s"
  "length (filter is_report_write (fs (write_reports h info options dir s)))
     = length (filter is_report_write (fs s)) + 2"
  by (simp_all add: write_reports_def Let_def)

lemma case_list_members:
  "c \<in> set (case_list ts renderers) \<Longrightarrow> fst c \<in> set ts \<and> snd c \<in> set renderers"
  by (auto simp: case_list_def)

text \<open>The fixtures of the suite, evaluated.\<close>

lemma suite_parse:
  "parseCliOptions (example_cli (Some [''encode-svg'']) (Some ''1'') (Some ''1''))
     = Inr (suite_options [''encode-svg''])"
  "parseCliOptions (example_cli (Some [''encode-svg,encode-svg'']) (Some ''1'') (Some ''1''))
     = Inr (suite_options [''encode-svg'', ''encode-svg''])"
  by (simp_all add: parseCliOptions_def parseTasks_def requested_names_def trim_def is_space_def
        parseInteger_def example_parseInt example_cli_def nullish_def join_def ALL_TASKS_def
        suite_options_def)

lemma fixture_runs:
  "run no_svg ''encode-svg'' w = (Inl (UnsupportedTaskError ''encode-svg: cannot encode svg''), w)"
  "name no_svg = ''no-svg''" "name fake_metric = ''fake-metric''"
  "prepare no_svg = None" "prepare fake_metric = None"
  by (simp_all add: no_svg_def fake_metric_def)

lemma fixture_behaviour:
  "always_unsupported no_svg ''encode-svg''" "never_fatal no_svg" "never_fatal fake_metric"
  by (simp_all add: always_unsupported_def never_fatal_def no_svg_def fake_metric_def)

lemma flaky_runs:
  "run flaky task [] = (Inl (Error ''no reading left''), [])"
  "run flaky task (t # ts) = (Inr (Metric t), ts)"
  "name flaky = ''flaky''" "prepare flaky = None"
  by (simp_all add: flaky_def)

lemma twice_parse:
  "parseCliOptions (example_cli (Some [''encode-svg,text-layout'']) (Some ''2'') (Some ''2''))
     = Inr (twice_options [''encode-svg'', ''text-layout''])"
  by (simp add: parseCliOptions_def parseTasks_def requested_names_def trim_def is_space_def
        parseInteger_def example_parseInt example_cli_def nullish_def join_def ALL_TASKS_def
        twice_options_def)

lemma twice_options_fields:
  "tasks (twice_options ts) = ts" "warmup (twice_options ts) = 2"
  "iterations (twice_options ts) = 2" "saveImages (twice_options ts) = False"
  by (simp_all add: twice_options_def)

lemma flaky_second_warmup:
  "run_called_in example_host flaky ''encode-svg''
     (twice_options [''encode-svg'', ''text-layout'']) [5] []"
  by (rule run_called_in.in_warmup[where k = 1])
     (simp_all add: twice_options_fields flaky_runs)

lemma flaky_second_iteration:
  "run_called_in example_host flaky ''encode-svg''
     (twice_options [''encode-svg'', ''text-layout'']) [1, 2, 3, 4, 5] []"
  by (rule run_called_in.in_measured[where k = 1 and ?w1.0 = "[3, 4, 5]" and ?w2.0 = "[3, 4, 5]"
        and baseline = "\<lparr>rss = 101711872, heapUsed = 54001664\<rparr>" and ?w3.0 = "[]" and start = 0
        and m = "measure_step False 3 (Metric 4) 5 \<lparr>rss = 104857600, heapUsed = 52428800\<rparr>
                   (initial_measured \<lparr>rss = 101711872, heapUsed = 54001664\<rparr>)"])
     (simp_all add: twice_options_fields flaky_runs eval_nat_numeral example_host_def call_gc_def)


lemma suite_options_fields:
  "tasks (suite_options ts) = ts" "warmup (suite_options ts) = Suc 0"
  "iterations (suite_options ts) = Suc 0" "saveImages (suite_options ts) = False"
  by (simp_all add: suite_options_def)

text \<open>
  Claim C1, as amended.  Let the options parse, every \<open>prepare\<close> succeed and no backend
  raise an error other than \<open>UnsupportedTaskError\<close>.  Then the suite runs to its end and
  writes its two reports, every case of the suite ends in exactly one record (statistics
  or skip), and a backend whose \<open>run\<close> raises \<open>UnsupportedTaskError\<close> on every call for
  a workload has no statistics for this pair and one skip record for each time the
  workload occurs in the requested list: exactly one if it is requested once.  A workload
  that is requested twice is run twice, as the counterexample after this theorem shows.
\<close>
theorem unsupported_case_is_skipped:
  assumes "parseCliOptions v = Inr options"
    and "prepare_all renderers w = (None, w1)"
    and "\<forall>r\<in>set renderers. never_fatal r"
    and "renderer \<in> set renderers" and "distinct (map name renderers)"
    and "always_unsupported renderer task"
  shows "\<exists>s. bench_main h info renderers v w = (None, s) \<and>
           mset (map stat_key (stats s)) + mset (map skip_key (skipped s))
             = mset (map case_key (case_list (tasks options) renderers)) \<and>
           count (mset (map skip_key (skipped s))) (name renderer, task)
             = count (mset (tasks options)) task \<and>
           (name renderer, task) \<notin> set (map stat_key (stats s)) \<and>
           length (filter is_report_write (fs s)) = 2"
proof -
  define k where "k = (name renderer, task)"
  define cs where "cs = case_list (tasks options) renderers"
  have wu: "0 < warmup options" using assms(1) by (rule parseCliOptions_Inr)
  have nf: "\<forall>c\<in>set cs. never_fatal (snd c)"
    using assms(3) case_list_members unfolding cs_def by blast
  have un: "\<forall>c\<in>set cs. case_key c = k \<longrightarrow> always_unsupported (snd c) (fst c)"
  proof (intro ballI impI)
    fix c assume c: "c \<in> set cs" "case_key c = k"
    then have "snd c \<in> set renderers" "name (snd c) = name renderer" "fst c = task"
      using case_list_members[of c] by (auto simp: cs_def case_key_def k_def)
    moreover have "inj_on name (set renderers)" using assms(5) by (simp add: distinct_map)
    ultimately have "snd c = renderer" using assms(4) by (auto dest: inj_onD)
    then show "always_unsupported (snd c) (fst c)" using assms(6) \<open>fst c = task\<close> by simp
  qed
  from run_cases_records[OF nf un wu, of h "suite_start options w1"]
  obtain s2 where s2: "run_cases h options cs (suite_start options w1) = (None, s2)"
    "mset (map stat_key (stats s2)) + mset (map skip_key (skipped s2)) = mset (map case_key cs)"
    "k \<notin> set (map stat_key (stats s2))"
    by (auto simp: suite_start_def initial_def)
  have main: "bench_main h info renderers v w = (None, write_reports h info options (cwd v) s2)"
    using assms(1,2) s2(1) by (simp add: bench_main_def run_tasks_eq_run_cases cs_def)
  have "count (mset (map stat_key (stats s2))) k = 0"
    using s2(3) by (simp add: count_eq_zero_iff)
  moreover have "count (mset (map stat_key (stats s2)) + mset (map skip_key (skipped s2))) k
      = count (mset (map case_key cs)) k"
    using s2(2) by simp
  ultimately have cnt: "count (mset (map skip_key (skipped s2))) k = count (mset (tasks options)) task"
    using count_case_keys[OF assms(4,5), of "tasks options" task] by (simp add: cs_def k_def)
  have rep: "length (filter is_report_write (fs s2)) = 0"
    using run_cases_no_report[OF s2(1)] by simp
  show ?thesis
    using main s2(2,3) cnt rep by (simp add: cs_def k_def)
qed

theorem unsupported_case_is_skipped_witness:
  "parseCliOptions (example_cli (Some [''encode-svg'']) (Some ''1'') (Some ''1''))
     = Inr (suite_options [''encode-svg'']) \<and>
   prepare_all [no_svg, fake_metric] [] = (None, []) \<and>
   never_fatal no_svg \<and> never_fatal fake_metric \<and> distinct (map name [no_svg, fake_metric]) \<and>
   always_unsupported no_svg ''encode-svg'' \<and>
   (\<exists>s. bench_main example_host example_info [no_svg, fake_metric]
           (example_cli (Some [''encode-svg'']) (Some ''1'') (Some ''1'')) [] = (None, s) \<and>
        count (mset (map skip_key (skipped s))) (''no-svg'', ''encode-svg'') = 1 \<and>
        (''no-svg'', ''encode-svg'') \<notin> set (map stat_key (stats s)) \<and>
        size (mset (map stat_key (stats s)) + mset (map skip_key (skipped s))) = 2)"
proof -
  have p: "prepare_all [no_svg, fake_metric] [] = (None, [])"
    by (simp add: fixture_runs)
  have n: "\<forall>r\<in>set [no_svg, fake_metric]. never_fatal r"
    by (simp add: fixture_behaviour)
  have m: "no_svg \<in> set [no_svg, fake_metric]" by simp
  have d: "distinct (map name [no_svg, fake_metric])" by (simp add: fixture_runs)
  from unsupported_case_is_skipped[OF suite_parse(1) p n m d fixture_behaviour(1),
      of example_host example_info]
  obtain s where s: "bench_main example_host example_info [no_svg, fake_metric]
           (example_cli (Some [''encode-svg'']) (Some ''1'') (Some ''1'')) [] = (None, s)"
    "mset (map stat_key (stats s)) + mset (map skip_key (skipped s))
       = mset (map case_key (case_list (tasks (suite_options [''encode-svg''])) [no_svg, fake_metric]))"
    "count (mset (map skip_key (skipped s))) (name no_svg, ''encode-svg'')
       = count (mset (tasks (suite_options [''encode-svg'']))) ''encode-svg''"
    "(name no_svg, ''encode-svg'') \<notin> set (map stat_key (stats s))"
    by blast
  have "size (mset (map stat_key (stats s)) + mset (map skip_key (skipped s))) = 2"
    unfolding s(2) by (simp add: case_list_def suite_options_def)
  then show ?thesis
    using s(1,3,4) p d suite_parse(1) fixture_behaviour
    by (auto simp: fixture_runs suite_options_def)
qed

text \<open>
  The claim C1 as stated fails for \<^verbatim>\<open>--workload encode-svg,encode-svg\<close>: the list of
  workloads keeps both occurrences, the pair is run twice and two skip records are
  appended for it.
\<close>

theorem repeated_workload_counterexample:
  "always_unsupported no_svg ''encode-svg'' \<and>
   fst (bench_main example_host example_info [no_svg]
          (example_cli (Some [''encode-svg,encode-svg'']) (Some ''1'') (Some ''1'')) []) = None \<and>
   skipped (snd (bench_main example_host example_info [no_svg]
          (example_cli (Some [''encode-svg,encode-svg'']) (Some ''1'') (Some ''1'')) []))
     = [\<lparr>sk_renderer = ''no-svg'', sk_task = ''encode-svg'',
         reason = ''encode-svg: cannot encode svg''\<rparr>,
        \<lparr>sk_renderer = ''no-svg'', sk_task = ''encode-svg'',
         reason = ''encode-svg: cannot encode svg''\<rparr>]"
  by (simp add: fixture_behaviour bench_main_def suite_parse fixture_runs suite_options_fields
        run_one_def runCase_def suite_start_def initial_def)

text \<open>
  Claim C2.  Let the options parse and every \<open>prepare\<close> succeed, and let the cases before
  the case of a backend and a workload have completed, each with its statistics or its
  skip.  If a call of \<open>run\<close> that this case makes, a warmup call or a call of the measured
  loop, the first or a later one, raises an error other than \<open>UnsupportedTaskError\<close>,
  the program ends with this error.  Its final state is the state the cases before had
  left, with the world as the failing call left it and the two lines \<^verbatim>\<open>running ...\<close> and
  \<^verbatim>\<open>failed\<close> printed: no record is appended for the failing case, the cases after it have
  no effect at all, and no report is among the files written.  An error that a \<open>prepare\<close>
  raises, of whatever kind, the backends before it having been prepared, ends the program
  before any case: nothing is recorded, printed or written.
\<close>

theorem fatal_error_aborts_suite:
  "(parseCliOptions v = Inr options \<and> prepare_all renderers w = (None, w1) \<and>
    case_list (tasks options) renderers = before @ (task, renderer) # after \<and>
    run_cases h options before (suite_start options w1) = (None, s) \<and>
    run_called_in h renderer task options (world s) w2 \<and>
    run renderer task w2 = (Inl (Error msg), w') \<longrightarrow>
      bench_main h info renderers v w
        = (Some (Error msg),
           s\<lparr>world := w', stdout := stdout s @ [Running (name renderer) task, FailedLine]\<rparr>) \<and>
      filter is_report_write (fs s) = []) \<and>
   (parseCliOptions v = Inr options \<and> renderers = ready @ renderer # rest \<and>
    prepare_all ready w = (None, w1) \<and> prepare renderer = Some p \<and> p w1 = (Some e, w') \<longrightarrow>
      bench_main h info renderers v w = (Some e, initial w'))"
proof (intro conjI impI)
  assume a: "parseCliOptions v = Inr options \<and> prepare_all renderers w = (None, w1) \<and>
    case_list (tasks options) renderers = before @ (task, renderer) # after \<and>
    run_cases h options before (suite_start options w1) = (None, s) \<and>
    run_called_in h renderer task options (world s) w2 \<and>
    run renderer task w2 = (Inl (Error msg), w')"
  then have called: "run_called_in h renderer task options (world s) w2"
    and raised: "run renderer task w2 = (Inl (Error msg), w')" by simp_all
  have warm: "warmup_loop renderer task (k + j) u =
      (case warmup_loop renderer task k u of
         (Some e, u1) \<Rightarrow> (Some e, u1)
       | (None, u1) \<Rightarrow> warmup_loop renderer task j u1)" for k j u
    by (induction k arbitrary: u) (auto split: prod.splits sum.splits option.splits)
  have meas: "measure_loop h renderer task save (k + j) m u =
      (case measure_loop h renderer task save k m u of
         (Inl e, u1) \<Rightarrow> (Inl e, u1)
       | (Inr m1, u1) \<Rightarrow> measure_loop h renderer task save j m1 u1)" for save k j m u
    by (induction k arbitrary: m u) (auto split: prod.splits sum.splits)
  from called have "runCase task renderer options h (world s) = (Inl (Error msg), w')"
  proof (cases rule: run_called_in.cases)
    case (in_warmup k)
    then obtain j where j: "warmup options = k + Suc j" using less_iff_Suc_add by auto
    have "warmup_loop renderer task (warmup options) (world s) = (Some (Error msg), w')"
      unfolding j warm using in_warmup(2) raised by simp
    then show ?thesis by (simp add: runCase_def)
  next
    case (in_measured u1 baseline u2 k m u3 start)
    then obtain j where j: "iterations options = k + Suc j" using less_iff_Suc_add by auto
    have "measure_loop h renderer task (saveImages options) (iterations options)
            (initial_measured baseline) u2 = (Inl (Error msg), w')"
      unfolding j meas using in_measured(4,5) raised by simp
    then show ?thesis using in_measured(1,2) by (simp add: runCase_def)
  qed
  then have one: "run_one h options task renderer s =
      (Some (Error msg),
       s\<lparr>world := w', stdout := stdout s @ [Running (name renderer) task, FailedLine]\<rparr>)"
    by (simp add: run_one_def)
  have "run_tasks h options renderers (tasks options) (suite_start options w1)
          = run_cases h options (before @ (task, renderer) # after) (suite_start options w1)"
    using a by (simp add: run_tasks_eq_run_cases)
  also have "\<dots> = (Some (Error msg),
       s\<lparr>world := w', stdout := stdout s @ [Running (name renderer) task, FailedLine]\<rparr>)"
    using a one by (simp add: run_cases_append)
  finally show "bench_main h info renderers v w
        = (Some (Error msg),
           s\<lparr>world := w', stdout := stdout s @ [Running (name renderer) task, FailedLine]\<rparr>)"
    using a by (simp add: bench_main_def)
  show "filter is_report_write (fs s) = []"
    using a run_cases_no_report[of h options before "suite_start options w1" None s] by simp
next
  assume a: "parseCliOptions v = Inr options \<and> renderers = ready @ renderer # rest \<and>
    prepare_all ready w = (None, w1) \<and> prepare renderer = Some p \<and> p w1 = (Some e, w')"
  have "prepare_all (rs @ renderer # rest) u = (Some e, w')"
    if "prepare_all rs u = (None, w1)" for rs u
    using that a by (induction rs arbitrary: u) (auto split: prod.splits option.splits)
  then have "prepare_all renderers w = (Some e, w')" using a by simp
  then show "bench_main h info renderers v w = (Some e, initial w')"
    using a by (simp add: bench_main_def)
qed

theorem fatal_error_aborts_suite_witness:
  "parseCliOptions (example_cli (Some [''encode-svg,text-layout'']) (Some ''2'') (Some ''2''))
     = Inr (twice_options [''encode-svg'', ''text-layout'']) \<and>
   case_list [''encode-svg'', ''text-layout''] [no_svg, flaky]
     = [(''encode-svg'', no_svg)] @ (''encode-svg'', flaky)
         # [(''text-layout'', no_svg), (''text-layout'', flaky)] \<and>
   run_called_in example_host flaky ''encode-svg''
     (twice_options [''encode-svg'', ''text-layout'']) [5] [] \<and>
   run_called_in example_host flaky ''encode-svg''
     (twice_options [''encode-svg'', ''text-layout'']) [1, 2, 3, 4, 5] [] \<and>
   run flaky ''encode-svg'' [] = (Inl (Error ''no reading left''), []) \<and>
   runCase ''encode-svg'' flaky (twice_options [''encode-svg'', ''text-layout'']) example_host [5]
     = (Inl (Error ''no reading left''), []) \<and>
   runCase ''encode-svg'' flaky (twice_options [''encode-svg'', ''text-layout'']) example_host
     [1, 2, 3, 4, 5] = (Inl (Error ''no reading left''), []) \<and>
   bench_main example_host example_info [no_svg, flaky]
       (example_cli (Some [''encode-svg,text-layout'']) (Some ''2'') (Some ''2'')) [5]
     = (Some (Error ''no reading left''),
        \<lparr>world = [], stats = [],
         skipped = [\<lparr>sk_renderer = ''no-svg'', sk_task = ''encode-svg'',
                     reason = ''encode-svg: cannot encode svg''\<rparr>],
         savedImages = [], fs = [],
         stdout = [Running ''no-svg'' ''encode-svg'', SkippedLine,
                   Running ''flaky'' ''encode-svg'', FailedLine]\<rparr>) \<and>
   bench_main example_host example_info [no_svg, flaky]
       (example_cli (Some [''encode-svg,text-layout'']) (Some ''2'') (Some ''2'')) [1, 2, 3, 4, 5]
     = (Some (Error ''no reading left''),
        \<lparr>world = [], stats = [],
         skipped = [\<lparr>sk_renderer = ''no-svg'', sk_task = ''encode-svg'',
                     reason = ''encode-svg: cannot encode svg''\<rparr>],
         savedImages = [], fs = [],
         stdout = [Running ''no-svg'' ''encode-svg'', SkippedLine,
                   Running ''flaky'' ''encode-svg'', FailedLine]\<rparr>) \<and>
   prepare_all [no_svg] [] = (None, []) \<and>
   prepare_all [no_svg, unprepared] [] = (Some (Error ''no fonts''), []) \<and>
   bench_main example_host example_info [no_svg, unprepared]
       (example_cli (Some [''encode-svg,text-layout'']) (Some ''2'') (Some ''2'')) []
     = (Some (Error ''no fonts''), initial [])"
proof -
  let ?o = "twice_options [''encode-svg'', ''text-layout'']"
  let ?v = "example_cli (Some [''encode-svg,text-layout'']) (Some ''2'') (Some ''2'')"
  let ?s = "\<lambda>w. \<lparr>world = w, stats = [],
         skipped = [\<lparr>sk_renderer = ''no-svg'', sk_task = ''encode-svg'',
                     reason = ''encode-svg: cannot encode svg''\<rparr>],
         savedImages = [], fs = [],
         stdout = [Running ''no-svg'' ''encode-svg'', SkippedLine]\<rparr> :: number list suite"
  have p: "prepare_all [no_svg, flaky] w = (None, w)" for w
    by (simp add: fixture_runs flaky_runs)
  have c: "case_list (tasks ?o) [no_svg, flaky]
     = [(''encode-svg'', no_svg)] @ (''encode-svg'', flaky)
         # [(''text-layout'', no_svg), (''text-layout'', flaky)]"
    by (simp add: case_list_def twice_options_fields)
  have b: "run_cases example_host ?o [(''encode-svg'', no_svg)] (suite_start ?o w) = (None, ?s w)"
    for w
    by (simp add: run_one_def runCase_def fixture_runs twice_options_fields suite_start_def
          initial_def eval_nat_numeral)
  have r: "run flaky ''encode-svg'' [] = (Inl (Error ''no reading left''), [])"
    by (rule flaky_runs)
  have q: "prepare_all [no_svg] [] = (None, [])" by (simp add: fixture_runs)
  have q': "prepare_all [no_svg, unprepared] [] = (Some (Error ''no fonts''), [])"
    by (simp add: fixture_runs unprepared_def)
  have rc: "runCase ''encode-svg'' flaky ?o example_host [5]
              = (Inl (Error ''no reading left''), [])"
    "runCase ''encode-svg'' flaky ?o example_host [1, 2, 3, 4, 5]
       = (Inl (Error ''no reading left''), [])"
    by (simp_all add: runCase_def twice_options_fields flaky_runs eval_nat_numeral
          example_host_def call_gc_def)
  have u: "prepare unprepared = Some (\<lambda>w. (Some (Error ''no fonts''), w))"
    by (simp add: unprepared_def)
  note t = fatal_error_aborts_suite[where h = example_host and info = example_info
      and v = ?v and options = ?o]
  note t1 = t[where renderers = "[no_svg, flaky]" and before = "[(''encode-svg'', no_svg)]"
      and task = "''encode-svg''" and renderer = flaky
      and after = "[(''text-layout'', no_svg), (''text-layout'', flaky)]"
      and ?w2.0 = "[]" and msg = "''no reading left''" and w' = "[]"]
  have e1: "run_called_in example_host flaky ''encode-svg'' ?o (world (?s [5])) []"
    using flaky_second_warmup by simp
  have e2: "run_called_in example_host flaky ''encode-svg'' ?o (world (?s [1, 2, 3, 4, 5])) []"
    using flaky_second_iteration by simp
  have 1: "bench_main example_host example_info [no_svg, flaky] ?v [5]
     = (Some (Error ''no reading left''),
        (?s [5])\<lparr>world := [],
                 stdout := stdout (?s [5]) @ [Running (name flaky) ''encode-svg'', FailedLine]\<rparr>)
     \<and> filter is_report_write (fs (?s [5])) = []"
    by (rule t1[where w = "[5]" and ?w1.0 = "[5]", THEN conjunct1, THEN mp])
       (intro conjI; (rule twice_parse p c b e1 r))
  have 2: "bench_main example_host example_info [no_svg, flaky] ?v [1, 2, 3, 4, 5]
     = (Some (Error ''no reading left''),
        (?s [1, 2, 3, 4, 5])\<lparr>world := [],
                 stdout := stdout (?s [1, 2, 3, 4, 5])
                           @ [Running (name flaky) ''encode-svg'', FailedLine]\<rparr>)
     \<and> filter is_report_write (fs (?s [1, 2, 3, 4, 5])) = []"
    by (rule t1[where w = "[1, 2, 3, 4, 5]" and ?w1.0 = "[1, 2, 3, 4, 5]", THEN conjunct1,
              THEN mp])
       (intro conjI; (rule twice_parse p c b e2 r))
  have l: "[no_svg, unprepared] = [no_svg] @ unprepared # []" by simp
  have f: "(\<lambda>w. (Some (Error ''no fonts''), w)) ([] :: number list) = (Some (Error ''no fonts''), [])"
    by simp
  have 3: "bench_main example_host example_info [no_svg, unprepared] ?v []
     = (Some (Error ''no fonts''), initial [])"
    by (rule t[where renderers = "[no_svg, unprepared]" and ready = "[no_svg]"
          and renderer = unprepared and rest = "[]" and ?w1.0 = "[]"
          and p = "\<lambda>w. (Some (Error ''no fonts''), w)", THEN conjunct2, THEN mp])
       (intro conjI; (rule twice_parse l q u f))
  show ?thesis
    using twice_parse c r q q' rc flaky_second_warmup flaky_second_iteration 1 2 3
    by (simp add: twice_options_fields flaky_runs)
qed

end
